theory Spec2Isabelle
  imports Main "HOL-Library.AList"
begin

section \<open>The embedding\<close>

text \<open>
  A shallow embedding of the trigger-driven synchronisation scheduler of imeSync: the class
  \<^verbatim>\<open>SyncManager\<close> of \<^verbatim>\<open>src/services/SyncManager.ts\<close>, the types of
  \<^verbatim>\<open>types/SessionConfig\<close>, and the \<^verbatim>\<open>sync-now\<close> handler of \<^verbatim>\<open>src/main.ts\<close>.

  \<^item> Every method is a function on the state of the manager. The state also holds the
    timers and file watchers of the Node.js runtime, which the class creates and clears.
  \<^item> What a call tells the outside (log lines, callbacks, the subprocess) is returned as
    a list of events, in the order of the calls. What the outside answers (the file
    system, the subprocess, the clock, the network, the callbacks passed to the
    constructor) is read from an environment record.
  \<^item> A thrown error is a value: a result is \<open>Inl\<close> of the error or \<open>Inr\<close> of the value.
  \<^item> An \<^verbatim>\<open>async\<close> call runs to its end before the next one starts: the interleaving of
    two syncs that are in flight together is not modelled.
  \<^item> Numbers that the code reads from a session (milliseconds, minutes, ports) are
    natural numbers.
\<close>

section \<open>JavaScript strings and numbers\<close>

text \<open>
  A JavaScript string is modelled as a \<^typ>\<open>string\<close>: a list of code units, restricted to
  code units below 256. The helpers below follow the built-in methods that
  \<^verbatim>\<open>SyncManager.ts\<close> calls on strings.
\<close>

definition isWhiteSpace :: "char \<Rightarrow> bool" where
  \<comment> \<open>the code units \<^verbatim>\<open>String.prototype.trim\<close> strips: TAB, LF, VT, FF, CR, SP, NBSP\<close>
  "isWhiteSpace c = (c \<in> set [CHR 0x09, CHR 0x0A, CHR 0x0B, CHR 0x0C, CHR 0x0D, CHR 0x20, CHR 0xA0])"

definition js_trim :: "string \<Rightarrow> string" where
  "js_trim s = rev (dropWhile isWhiteSpace (rev (dropWhile isWhiteSpace s)))"

fun js_startsWith :: "string \<Rightarrow> string \<Rightarrow> bool" where
  "js_startsWith s [] = True"
| "js_startsWith [] (p # ps) = False"
| "js_startsWith (c # cs) (p # ps) = (c = p \<and> js_startsWith cs ps)"

fun js_includes :: "string \<Rightarrow> string \<Rightarrow> bool" where
  "js_includes [] p = (p = [])"
| "js_includes (c # cs) p = (js_startsWith (c # cs) p \<or> js_includes cs p)"

fun js_split :: "char \<Rightarrow> string \<Rightarrow> string list" where
  \<comment> \<open>\<^verbatim>\<open>s.split(d)\<close> for a separator of one code unit\<close>
  "js_split d [] = [[]]"
| "js_split d (c # cs) =
     (if c = d then [] # js_split d cs
      else (case js_split d cs of [] \<Rightarrow> [[c]] | l # ls \<Rightarrow> (c # l) # ls))"

fun js_join :: "string \<Rightarrow> string list \<Rightarrow> string" where
  "js_join sep [] = []"
| "js_join sep [x] = x"
| "js_join sep (x # y # ys) = x @ sep @ js_join sep (y # ys)"

definition isDigit :: "char \<Rightarrow> bool" where
  "isDigit c = (c \<in> set ''0123456789'')"

fun index_of :: "'a \<Rightarrow> 'a list \<Rightarrow> nat" where
  "index_of c [] = 0"
| "index_of c (x # xs) = (if x = c then 0 else Suc (index_of c xs))"

definition digit_value :: "char \<Rightarrow> nat" where
  \<comment> \<open>the value of a decimal digit: its place among the ten digits\<close>
  "digit_value c = (if isDigit c then index_of c ''0123456789'' else 0)"

definition digits_value :: "string \<Rightarrow> nat" where
  \<comment> \<open>the value of a run of decimal digits, read left to right\<close>
  "digits_value ds = foldl (\<lambda>acc c. 10 * acc + digit_value c) 0 ds"

fun show_nat :: "nat \<Rightarrow> string" where
  \<comment> \<open>\<^verbatim>\<open>String(n)\<close> for a non-negative integer below 2^53\<close>
  "show_nat n =
     (if n < 10 then [''0123456789'' ! n]
      else show_nat (n div 10) @ [''0123456789'' ! (n mod 10)])"

declare show_nat.simps [simp del]

definition show_thousandths :: "nat \<Rightarrow> string" where
  \<comment> \<open>\<^verbatim>\<open>String(n / 1000)\<close>: the quotient in decimal notation, without trailing zeros\<close>
  "show_thousandths n =
     show_nat (n div 1000) @
     (if n mod 1000 = 0 then []
      else ''.'' @ rev (dropWhile (\<lambda>c. c = CHR ''0'')
                     (rev (replicate (3 - length (show_nat (n mod 1000))) CHR ''0'' @ show_nat (n mod 1000)))))"

definition Number_js :: "string \<Rightarrow> nat option" where
  \<comment> \<open>\<^verbatim>\<open>Number(s)\<close> on the strings an \<^verbatim>\<open>HH:mm\<close> field holds: surrounding white space
      is dropped, the empty string is 0, a run of decimal digits is its value; every
      other string is taken as \<^verbatim>\<open>NaN\<close> (\<open>None\<close>), which equals no hour and no minute.\<close>
  "Number_js s =
     (let t = js_trim s in
      if list_all isDigit t then Some (digits_value t) else None)"

definition dq :: char where
  \<comment> \<open>the double quote\<close>
  "dq = CHR 0x22"

definition sq :: char where
  \<comment> \<open>the single quote\<close>
  "sq = CHR 0x27"

section \<open>Data model (types/SessionConfig)\<close>

record WiFiTrigger =
  ssid :: string
  onConnect :: bool

record ScheduleTrigger =
  time :: string
  days :: "string list"

record FileChangeTrigger =
  watchPaths :: "string list"
  debounceMs :: nat
  recursive :: bool
  ignorePatterns :: "string list option"

record StartupTrigger =
  delayMs :: nat

record IntervalTrigger =
  intervalMinutes :: nat
  startTime :: "string option"
  endTime :: "string option"

datatype Trigger =
    WiFi WiFiTrigger
  | Schedule ScheduleTrigger
  | FileChange FileChangeTrigger
  | Startup StartupTrigger
  | Interval IntervalTrigger

record RsyncOptions =
  deleteOnDestination :: bool
  compress :: bool
  preservePermissions :: bool
  updateOnly :: bool

record RemoteConnection =
  host :: string
  username :: string
  password :: "string option"
  port :: "nat option"
  remotePath :: string
  moduleName :: "string option"

datatype SyncStatus = StatusSuccess | StatusError | StatusWarning

record SessionConfig =
  id_s :: string
  name :: string
  sourcePath :: string
  destinationPath :: string
  triggers :: "Trigger list"
  excludePatterns :: "string list option"
  lastSync :: "string option"
  lastSyncStatus :: "SyncStatus option"
  lastSyncError :: "string option"
  enabled :: bool
  paused :: "bool option"
  rsyncOptions :: "RsyncOptions option"
  remoteConnection :: "RemoteConnection option"

section \<open>Effects, errors and the environment\<close>

text \<open>
  A thrown value is an \<^verbatim>\<open>Error\<close> with its message. What a call does to the outside is a
  list of events, in the order the code performs them. \<open>Log t msg\<close> is one call of the
  local \<^verbatim>\<open>log\<close> function of \<^verbatim>\<open>syncSession\<close> (console output, and the log sink when one
  was passed); \<open>Console\<close> and \<open>ConsoleError\<close> are direct \<^verbatim>\<open>console.log\<close> and
  \<^verbatim>\<open>console.error\<close> calls; \<open>Exec cmd pw\<close> is the call of \<^verbatim>\<open>execAsync\<close> with the command
  line and the value of \<^verbatim>\<open>RSYNC_PASSWORD\<close> in its environment (\<open>None\<close> when unset).
  \<open>EnterSyncSession\<close> has no counterpart among the effects of the source: it records that
  \<^verbatim>\<open>syncSession\<close> was called.
\<close>

datatype js_error = JsError string

fun message :: "js_error \<Rightarrow> string" where
  "message (JsError msg) = msg"

fun error_string :: "js_error \<Rightarrow> string" where
  \<comment> \<open>the error inside a template literal: \<^verbatim>\<open>Error.prototype.toString\<close>\<close>
  "error_string (JsError msg) = (if msg = [] then ''Error'' else ''Error: '' @ msg)"

datatype LogType = LInfo | LSuccess | LError | LWarning

datatype event =
    Console string
  | ConsoleError string
  | Log LogType string
  | SyncStart string
  | SyncEnd string
  | SaveSessions "SessionConfig list"
  | Notification string string string
  | Exec string "string option"
  | EnterSyncSession string

datatype Outcome = Resolves | Rejects js_error

datatype ExecResult = ExecOk string string | ExecFail string

record DateJs =
  getHours :: nat
  getMinutes :: nat
  getDay :: nat

text \<open>
  The environment of one step: what the file system, the subprocess, the clock, the
  network and the injected callbacks answer. A callback that returns a promise may
  reject (\<open>Rejects\<close>); the synchronous callbacks (\<^verbatim>\<open>syncStartCallback\<close>,
  \<^verbatim>\<open>syncEndCallback\<close>, the log sink) are taken to return normally. \<open>None\<close> and
  \<open>False\<close> stand for a callback that was not passed to the constructor.
\<close>

record Env =
  toISOString :: string
  now :: DateJs
  fs_access :: "string \<Rightarrow> bool"
  execAsync :: "string \<Rightarrow> string option \<Rightarrow> ExecResult"
  duration :: nat
  saveSessionsCallback :: "Outcome option"
  notificationCallback :: "Outcome option"
  syncStartCallback :: bool
  syncEndCallback :: bool
  logCallbackFactory :: "Outcome option"
  startNewSyncLog :: Outcome
  getCurrentSSID :: "string option"
  fs_watch :: "string \<Rightarrow> bool"
  regexTest :: "string \<Rightarrow> string \<Rightarrow> bool"

section \<open>The sync executor (services/SyncManager.ts)\<close>

subsection \<open>Reading the statistics of the subprocess output\<close>

fun match_files_transferred :: "string \<Rightarrow> string option" where
  \<comment> \<open>the group of \<^verbatim>\<open>line.match(/Number of files transferred: (\d+)/)\<close>: the leftmost
      place where the literal is followed by a digit, and the whole run of digits there\<close>
  "match_files_transferred [] = None"
| "match_files_transferred (c # cs) =
     (let ds = takeWhile isDigit (drop (length ''Number of files transferred: '') (c # cs)) in
      if js_startsWith (c # cs) ''Number of files transferred: '' \<and> ds \<noteq> [] then Some ds
      else match_files_transferred cs)"

fun greedy_before :: "string \<Rightarrow> string \<Rightarrow> string option" where
  \<comment> \<open>the longest non-empty prefix of the text that is followed by the suffix\<close>
  "greedy_before [] suf = None"
| "greedy_before (c # cs) suf =
     (case greedy_before cs suf of
        Some p \<Rightarrow> Some (c # p)
      | None \<Rightarrow> if js_startsWith cs suf then Some [c] else None)"

fun match_total_size :: "string \<Rightarrow> string option" where
  \<comment> \<open>the group of \<^verbatim>\<open>line.match(/Total file size: (.+) bytes/)\<close>; the dot matches no
      line terminator\<close>
  "match_total_size [] = None"
| "match_total_size (c # cs) =
     (let r = takeWhile (\<lambda>x. x \<noteq> CHR 0x0A \<and> x \<noteq> CHR 0x0D)
                (drop (length ''Total file size: '') (c # cs)) in
      if js_startsWith (c # cs) ''Total file size: '' \<and> greedy_before r '' bytes'' \<noteq> None
      then greedy_before r '' bytes''
      else match_total_size cs)"

definition scan_line :: "string \<Rightarrow> event list \<times> nat \<times> string \<Rightarrow> event list \<times> nat \<times> string" where
  \<comment> \<open>the body of \<^verbatim>\<open>lines.forEach\<close>: the log lines so far, \<^verbatim>\<open>filesTransferred\<close>, \<^verbatim>\<open>totalSize\<close>\<close>
  "scan_line line acc =
     (case acc of (evs, filesTransferred, totalSize) \<Rightarrow>
        if js_includes line ''->'' \<or> js_includes line ''sent'' \<or> js_includes line ''received''
        then (evs @ [Log LInfo line], filesTransferred, totalSize)
        else if js_includes line ''Number of files transferred:''
        then (case match_files_transferred line of
                Some ds \<Rightarrow> (evs, digits_value ds, totalSize)
              | None \<Rightarrow> acc)
        else if js_includes line ''Total file size:''
        then (case match_total_size line of
                Some t \<Rightarrow> (evs, filesTransferred, t)
              | None \<Rightarrow> acc)
        else acc)"

definition stdout_events :: "nat \<Rightarrow> string \<Rightarrow> event list" where
  "stdout_events dur stdout =
     (if stdout \<noteq> [] then
        (case fold scan_line (filter (\<lambda>line. js_trim line \<noteq> []) (js_split CHR 0x0A stdout)) ([], 0, []) of
           (evs, filesTransferred, totalSize) \<Rightarrow>
             evs @
             [Log LSuccess (''Transfer completed in '' @ show_nat dur @ ''s''),
              Log LInfo (''Files transferred: '' @ show_nat filesTransferred)] @
             (if totalSize \<noteq> [] then [Log LInfo (''Total size: '' @ totalSize @ '' bytes'')] else []))
      else [])"

definition stderr_events :: "string \<Rightarrow> event list" where
  "stderr_events stderr =
     (if stderr \<noteq> [] \<and> \<not> js_includes stderr ''warning''
      then [Log LWarning (''Rsync warnings: '' @ stderr)] else [])"

subsection \<open>Building the rsync command\<close>

definition add_exclude :: "string \<Rightarrow> string \<Rightarrow> string" where
  \<comment> \<open>the body of \<^verbatim>\<open>excludePatterns.forEach\<close>\<close>
  "add_exclude pattern command =
     (let cleanPattern = js_trim pattern in
      if cleanPattern \<noteq> [] then command @ '' --exclude='' @ [sq] @ cleanPattern @ [sq]
      else command)"

definition rsync_command :: "SessionConfig \<Rightarrow> string" where
  \<comment> \<open>the value of \<^verbatim>\<open>command\<close> when \<^verbatim>\<open>syncWithRsync\<close> calls \<^verbatim>\<open>execAsync\<close>; the log calls
      that stand between the assignments are \<open>option_events\<close> below\<close>
  "rsync_command session =
     (let excl = (case excludePatterns session of None \<Rightarrow> [] | Some ps \<Rightarrow> ps);
          command = [];
          command = command @ ''rsync -av --progress --stats'';
          command = command @ '' --human-readable'';
          command = (if length excl > 0 then fold add_exclude excl command else command);
          updOnly = (case rsyncOptions session of None \<Rightarrow> True | Some ro \<Rightarrow> updateOnly ro);
          command = (if \<not> updOnly then command @ '' --ignore-times'' else command);
          command = (if (case rsyncOptions session of None \<Rightarrow> False | Some ro \<Rightarrow> deleteOnDestination ro)
                     then command @ '' --delete'' else command);
          command = (if (case rsyncOptions session of None \<Rightarrow> False | Some ro \<Rightarrow> compress ro)
                     then command @ '' -z'' else command);
          command = (if (case rsyncOptions session of None \<Rightarrow> False | Some ro \<Rightarrow> preservePermissions ro)
                     then command @ '' -p'' else command)
      in command @ '' '' @ [dq] @ sourcePath session @ ''/'' @ [dq] @
         '' '' @ [dq] @ destinationPath session @ ''/'' @ [dq])"

definition rsync_password :: "RemoteConnection \<Rightarrow> string option" where
  \<comment> \<open>\<^verbatim>\<open>env.RSYNC_PASSWORD\<close>: set when the password is a non-empty string\<close>
  "rsync_password rc =
     (case password rc of None \<Rightarrow> None | Some pw \<Rightarrow> if pw \<noteq> [] then Some pw else None)"

definition option_events :: "SessionConfig \<Rightarrow> event list" where
  "option_events session =
     (let excl = (case excludePatterns session of None \<Rightarrow> [] | Some ps \<Rightarrow> ps);
          updOnly = (case rsyncOptions session of None \<Rightarrow> True | Some ro \<Rightarrow> updateOnly ro)
      in
      (if length excl > 0
       then [Log LInfo (''Excluding patterns: '' @
               js_join '', '' (filter (\<lambda>p. p \<noteq> []) (map js_trim excl)))]
       else []) @
      (if \<not> updOnly
       then [Log LInfo ''Update mode disabled: all files will be transferred regardless of timestamps'']
       else [Log LInfo ''Update mode enabled: only newer files will be transferred'']) @
      (if (case rsyncOptions session of None \<Rightarrow> False | Some ro \<Rightarrow> deleteOnDestination ro)
       then [Log LInfo ''Delete mode enabled: files not in source will be removed from destination'']
       else []) @
      (if (case rsyncOptions session of None \<Rightarrow> False | Some ro \<Rightarrow> compress ro)
       then [Log LInfo ''Compression enabled for transfer''] else []) @
      (if (case rsyncOptions session of None \<Rightarrow> False | Some ro \<Rightarrow> preservePermissions ro)
       then [Log LInfo ''Permission preservation enabled''] else []))"

subsection \<open>syncWithRsync\<close>

definition classify_exec_error :: "string \<Rightarrow> js_error" where
  \<comment> \<open>the \<^verbatim>\<open>catch\<close> block around \<^verbatim>\<open>execAsync\<close>: what is thrown for an error message\<close>
  "classify_exec_error msg =
     (if js_includes msg ''Permission denied''
      then JsError ''Permission denied. Check read permissions on source and write permissions on destination.''
      else if js_includes msg ''No such file or directory''
      then JsError ''Source or destination path not found. Please verify the paths are correct.''
      else if js_includes msg ''Connection refused''
      then JsError ''Connection refused. Check if rsync daemon is running on the remote host.''
      else if js_includes msg ''Host key verification failed''
      then JsError ''Host verification failed. Please check server configuration.''
      else JsError msg)"

definition run_rsync :: "Env \<Rightarrow> SessionConfig \<Rightarrow> RemoteConnection \<Rightarrow> event list \<times> (js_error + unit)" where
  \<comment> \<open>\<^verbatim>\<open>syncWithRsync\<close> from the place where the command is built\<close>
  "run_rsync env session rc =
     (let command = rsync_command session;
          pw = rsync_password rc;
          evs = (if pw \<noteq> None then [Log LInfo ''Using RSYNC_PASSWORD for daemon authentication''] else []) @
                option_events session @
                [Log LInfo ''Executing rsync command...'',
                 Log LInfo (''Full command: '' @ command),
                 Exec command pw]
      in case execAsync env command pw of
           ExecOk stdout stderr \<Rightarrow>
             (evs @ stdout_events (duration env) stdout @ stderr_events stderr, Inr ())
         | ExecFail msg \<Rightarrow>
             (evs @ [Log LError (''Rsync failed: '' @ msg)], Inl (classify_exec_error msg)))"

definition syncWithRsync :: "Env \<Rightarrow> SessionConfig \<Rightarrow> event list \<times> (js_error + unit)" where
  "syncWithRsync env session =
     (if \<not> fs_access env (sourcePath session)
      then ([], Inl (JsError (''Source directory does not exist: '' @ sourcePath session)))
      else
        (case remoteConnection session of
           None \<Rightarrow>
             ([Log LInfo (''Source directory verified: '' @ sourcePath session)],
              Inl (JsError ''Remote connection configuration is required''))
         | Some rc \<Rightarrow>
             (case run_rsync env session rc of
                (evs, r) \<Rightarrow>
                  ([Log LInfo (''Source directory verified: '' @ sourcePath session),
                    Log LInfo ''Detected rsync daemon destination'',
                    Log LInfo (''Rsync daemon mode configured for '' @ username rc @ ''@'' @ host rc @ '':'' @
                       show_nat (case port rc of None \<Rightarrow> 873 | Some p \<Rightarrow> if p = 0 then 873 else p))] @ evs,
                   r))))"

section \<open>The scheduler state\<close>

text \<open>
  The timers and watchers of the Node.js runtime are part of the state: a timer is live
  from \<^verbatim>\<open>setTimeout\<close> or \<^verbatim>\<open>setInterval\<close> until it is cleared or, for a timeout, until
  it has run. What a timer runs is the closure it was created with; the closures of
  \<^verbatim>\<open>SyncManager.ts\<close> are the constructors of \<open>callback\<close>, each with the values it
  captured (the id and name of its session, its trigger).
\<close>

datatype callback =
    MarkStartupExecuted
  | CheckSchedule string string ScheduleTrigger
  | ExecuteSync string string IntervalTrigger
  | StartupFire string string StartupTrigger
  | DebounceFire string string string string
  | CheckNetwork

record timer =
  t_handle :: nat
  t_due :: nat
  t_repeat :: "nat option"
  t_cb :: callback

record watcher =
  w_handle :: nat
  w_sid :: string
  w_name :: string
  w_path :: string
  w_trigger :: FileChangeTrigger

record SyncManager =
  sessions :: "SessionConfig list"
  timers :: "(string \<times> nat) list"
  fileWatchers :: "(string \<times> nat list) list"
  networkWatcher :: "nat option"
  currentSSID :: "string option"
  startupTriggersExecuted :: bool
  globallyPaused :: bool
  clock :: nat
  nextHandle :: nat
  liveTimers :: "timer list"
  liveWatchers :: "watcher list"

definition new_SyncManager :: "SessionConfig list \<Rightarrow> nat \<Rightarrow> SyncManager" where
  \<comment> \<open>the constructor and the field initialisers, in a runtime whose clock shows \<open>t\<close>\<close>
  "new_SyncManager ss t =
     \<lparr>sessions = ss, timers = [], fileWatchers = [], networkWatcher = None,
      currentSSID = None, startupTriggersExecuted = False, globallyPaused = False,
      clock = t, nextHandle = 0, liveTimers = [], liveWatchers = []\<rparr>"

definition timer_delay :: "nat \<Rightarrow> nat" where
  \<comment> \<open>Node.js runs a timer whose delay is below 1 or above 2^31 - 1 after 1 ms\<close>
  "timer_delay after = (if 1 \<le> after \<and> after \<le> 2147483647 then after else 1)"

definition setTimeout :: "callback \<Rightarrow> nat \<Rightarrow> SyncManager \<Rightarrow> SyncManager" where
  \<comment> \<open>the new timer's handle is \<open>nextHandle\<close> of the state before the call\<close>
  "setTimeout cb after m =
     m\<lparr>liveTimers := liveTimers m @
          [\<lparr>t_handle = nextHandle m, t_due = clock m + timer_delay after, t_repeat = None, t_cb = cb\<rparr>],
       nextHandle := Suc (nextHandle m)\<rparr>"

definition setInterval :: "callback \<Rightarrow> nat \<Rightarrow> SyncManager \<Rightarrow> SyncManager" where
  "setInterval cb after m =
     m\<lparr>liveTimers := liveTimers m @
          [\<lparr>t_handle = nextHandle m, t_due = clock m + timer_delay after,
            t_repeat = Some (timer_delay after), t_cb = cb\<rparr>],
       nextHandle := Suc (nextHandle m)\<rparr>"

definition spawn :: "callback \<Rightarrow> SyncManager \<Rightarrow> SyncManager" where
  \<comment> \<open>the continuation of an \<^verbatim>\<open>async\<close> call that nobody awaits: it runs once, at a later
      step, and no handle to cancel it is kept\<close>
  "spawn cb m =
     m\<lparr>liveTimers := liveTimers m @
          [\<lparr>t_handle = nextHandle m, t_due = clock m, t_repeat = None, t_cb = cb\<rparr>],
       nextHandle := Suc (nextHandle m)\<rparr>"

definition clearTimer :: "nat \<Rightarrow> SyncManager \<Rightarrow> SyncManager" where
  \<comment> \<open>\<^verbatim>\<open>clearTimeout\<close> and \<^verbatim>\<open>clearInterval\<close>, which Node.js does not tell apart\<close>
  "clearTimer h m = m\<lparr>liveTimers := filter (\<lambda>t. t_handle t \<noteq> h) (liveTimers m)\<rparr>"

section \<open>The trigger engine (services/SyncManager.ts)\<close>

subsection \<open>Arming\<close>

text \<open>
  Arming is modelled by what it does to the state. \<^verbatim>\<open>setupFileChangeTrigger\<close> writes a
  console line for a path that cannot be watched; that line is not part of the model.
\<close>

definition setupScheduleTrigger :: "SessionConfig \<Rightarrow> ScheduleTrigger \<Rightarrow> SyncManager \<Rightarrow> SyncManager" where
  \<comment> \<open>\<^verbatim>\<open>trigger.days\<close> is an array, which is truthy also when empty\<close>
  "setupScheduleTrigger session trigger m =
     (if time trigger \<noteq> [] then
        (let m' = setInterval (CheckSchedule (id_s session) (name session) trigger) 60000 m
         in m'\<lparr>timers := AList.update (id_s session @ ''-schedule'') (nextHandle m) (timers m')\<rparr>)
      else m)"

definition startNetworkMonitoring :: "SyncManager \<Rightarrow> SyncManager" where
  "startNetworkMonitoring m =
     (let m1 = spawn CheckNetwork m;
          m2 = setInterval CheckNetwork 10000 m1
      in m2\<lparr>networkWatcher := Some (nextHandle m1)\<rparr>)"

definition setupWiFiTrigger :: "SyncManager \<Rightarrow> SyncManager" where
  "setupWiFiTrigger m = (if networkWatcher m = None then startNetworkMonitoring m else m)"

definition watch_path :: "Env \<Rightarrow> SessionConfig \<Rightarrow> FileChangeTrigger \<Rightarrow> string \<Rightarrow> SyncManager \<times> nat list \<Rightarrow> SyncManager \<times> nat list" where
  \<comment> \<open>the body of \<^verbatim>\<open>trigger.watchPaths.forEach\<close>: a path that cannot be watched is
      skipped\<close>
  "watch_path env session trigger watchPath acc =
     (case acc of (m, watchers) \<Rightarrow>
        if fs_watch env watchPath then
          (m\<lparr>liveWatchers := liveWatchers m @
                [\<lparr>w_handle = nextHandle m, w_sid = id_s session, w_name = name session,
                  w_path = watchPath, w_trigger = trigger\<rparr>],
              nextHandle := Suc (nextHandle m)\<rparr>,
           watchers @ [nextHandle m])
        else (m, watchers))"

definition setupFileChangeTrigger :: "Env \<Rightarrow> SessionConfig \<Rightarrow> FileChangeTrigger \<Rightarrow> SyncManager \<Rightarrow> SyncManager" where
  "setupFileChangeTrigger env session trigger m =
     (case fold (watch_path env session trigger) (watchPaths trigger) (m, []) of
        (m', watchers) \<Rightarrow>
          (let sessionWatchers = (case map_of (fileWatchers m') (id_s session) of
                                    None \<Rightarrow> [] | Some ws \<Rightarrow> ws)
           in m'\<lparr>fileWatchers := AList.update (id_s session) (sessionWatchers @ watchers) (fileWatchers m')\<rparr>))"

definition setupStartupTrigger :: "SessionConfig \<Rightarrow> StartupTrigger \<Rightarrow> SyncManager \<Rightarrow> SyncManager" where
  "setupStartupTrigger session trigger m =
     (if \<not> startupTriggersExecuted m
      then setTimeout (StartupFire (id_s session) (name session) trigger) (delayMs trigger) m
      else m)"

definition setupIntervalTrigger :: "SessionConfig \<Rightarrow> IntervalTrigger \<Rightarrow> SyncManager \<Rightarrow> SyncManager" where
  "setupIntervalTrigger session trigger m =
     (let interval = intervalMinutes trigger * 60 * 1000;
          m' = setInterval (ExecuteSync (id_s session) (name session) trigger) interval m
      in m'\<lparr>timers := AList.update (id_s session @ ''-interval'') (nextHandle m) (timers m')\<rparr>)"

fun setupTrigger :: "Env \<Rightarrow> SessionConfig \<Rightarrow> Trigger \<Rightarrow> SyncManager \<Rightarrow> SyncManager" where
  \<comment> \<open>the \<^verbatim>\<open>switch\<close> of \<^verbatim>\<open>setupTriggers\<close>\<close>
  "setupTrigger env session (Schedule trigger) m = setupScheduleTrigger session trigger m"
| "setupTrigger env session (WiFi trigger) m = setupWiFiTrigger m"
| "setupTrigger env session (FileChange trigger) m = setupFileChangeTrigger env session trigger m"
| "setupTrigger env session (Startup trigger) m = setupStartupTrigger session trigger m"
| "setupTrigger env session (Interval trigger) m = setupIntervalTrigger session trigger m"

definition setupTriggers :: "Env \<Rightarrow> SessionConfig \<Rightarrow> SyncManager \<Rightarrow> SyncManager" where
  "setupTriggers env session m = fold (setupTrigger env session) (triggers session) m"

definition start :: "Env \<Rightarrow> SyncManager \<Rightarrow> SyncManager" where
  "start env m =
     setTimeout MarkStartupExecuted 1000
       (fold (\<lambda>session m'. if enabled session then setupTriggers env session m' else m')
          (sessions m) m)"

definition stop :: "SyncManager \<Rightarrow> SyncManager" where
  "stop m =
     (let m1 = (fold clearTimer (map snd (timers m)) m)\<lparr>timers := []\<rparr>;
          m2 = m1\<lparr>liveWatchers :=
                    filter (\<lambda>w. w_handle w \<notin> set (concat (map snd (fileWatchers m1)))) (liveWatchers m1),
                  fileWatchers := []\<rparr>
      in case networkWatcher m2 of
           None \<Rightarrow> m2
         | Some h \<Rightarrow> (clearTimer h m2)\<lparr>networkWatcher := None\<rparr>)"

definition updateSessions :: "Env \<Rightarrow> SessionConfig list \<Rightarrow> SyncManager \<Rightarrow> SyncManager" where
  "updateSessions env ss m = start env ((stop m)\<lparr>sessions := ss\<rparr>)"

subsection \<open>Pause controls\<close>

text \<open>
  The four methods below are modelled by what they do to the state; the console line of
  each, and the call of the persistence callback in \<^verbatim>\<open>pauseSession\<close> and
  \<^verbatim>\<open>resumeSession\<close>, are not part of the model.
\<close>

definition pauseAllSessions :: "SyncManager \<Rightarrow> SyncManager" where
  "pauseAllSessions m = m\<lparr>globallyPaused := True\<rparr>"

definition resumeAllSessions :: "SyncManager \<Rightarrow> SyncManager" where
  "resumeAllSessions m = m\<lparr>globallyPaused := False\<rparr>"

fun update_first :: "('a \<Rightarrow> bool) \<Rightarrow> ('a \<Rightarrow> 'a) \<Rightarrow> 'a list \<Rightarrow> 'a list" where
  \<comment> \<open>a write to the object that \<^verbatim>\<open>Array.prototype.find\<close> returned: the first match\<close>
  "update_first P f [] = []"
| "update_first P f (x # xs) = (if P x then f x # xs else x # update_first P f xs)"

definition pauseSession :: "string \<Rightarrow> SyncManager \<Rightarrow> SyncManager" where
  "pauseSession sessionId m =
     m\<lparr>sessions := update_first (\<lambda>s. id_s s = sessionId) (\<lambda>s. s\<lparr>paused := Some True\<rparr>) (sessions m)\<rparr>"

definition resumeSession :: "string \<Rightarrow> SyncManager \<Rightarrow> SyncManager" where
  "resumeSession sessionId m =
     m\<lparr>sessions := update_first (\<lambda>s. id_s s = sessionId) (\<lambda>s. s\<lparr>paused := Some False\<rparr>) (sessions m)\<rparr>"

section \<open>syncSession and the pause gate\<close>

definition set_result :: "string \<Rightarrow> (SessionConfig \<Rightarrow> SessionConfig) \<Rightarrow> SyncManager \<Rightarrow> SyncManager" where
  \<comment> \<open>the assignments to the fields of the session object that \<^verbatim>\<open>find\<close> returned\<close>
  "set_result sessionId f m =
     m\<lparr>sessions := update_first (\<lambda>s. id_s s = sessionId) f (sessions m)\<rparr>"

definition sync_succeeded :: "Env \<Rightarrow> string \<Rightarrow> SessionConfig \<Rightarrow> SyncManager \<Rightarrow> SyncManager \<times> event list \<times> (js_error + unit)" where
  \<comment> \<open>the rest of the \<^verbatim>\<open>try\<close> block of \<^verbatim>\<open>syncSession\<close> after \<^verbatim>\<open>syncWithRsync\<close> has returned\<close>
  "sync_succeeded env sessionId session m =
     (let m' = set_result sessionId
                 (\<lambda>s. s\<lparr>lastSync := Some (toISOString env), lastSyncStatus := Some StatusSuccess,
                        lastSyncError := None\<rparr>) m
      in (m',
          (case saveSessionsCallback env of
             None \<Rightarrow> []
           | Some Resolves \<Rightarrow> [SaveSessions (sessions m')]
           | Some (Rejects e) \<Rightarrow>
               [SaveSessions (sessions m'),
                Log LWarning (''Failed to save session data after sync: '' @ error_string e)]) @
          [Log LSuccess (''Sync completed for session: '' @ name session)] @
          (if syncEndCallback env then [SyncEnd sessionId] else []),
          Inr ()))"

definition sync_failed :: "Env \<Rightarrow> string \<Rightarrow> SessionConfig \<Rightarrow> js_error \<Rightarrow> SyncManager \<Rightarrow> SyncManager \<times> event list \<times> (js_error + unit)" where
  \<comment> \<open>the \<^verbatim>\<open>catch\<close> block of \<^verbatim>\<open>syncSession\<close>\<close>
  "sync_failed env sessionId session err m =
     (let m' = set_result sessionId
                 (\<lambda>s. s\<lparr>lastSync := Some (toISOString env), lastSyncStatus := Some StatusError,
                        lastSyncError := Some (message err)\<rparr>) m
      in (m',
          (case saveSessionsCallback env of
             None \<Rightarrow> []
           | Some Resolves \<Rightarrow> [SaveSessions (sessions m')]
           | Some (Rejects e) \<Rightarrow>
               [SaveSessions (sessions m'),
                Log LWarning (''Failed to save session data after sync error: '' @ error_string e)]) @
          (case notificationCallback env of
             None \<Rightarrow> []
           | Some out \<Rightarrow>
               [Notification ''imeSync - Sync Error''
                  (''Sync failed for '' @ [dq] @ name session @ [dq] @ '': '' @
                     (if message err \<noteq> [] then message err else ''Unknown error''))
                  ''error''] @
               (case out of
                  Resolves \<Rightarrow> []
                | Rejects e \<Rightarrow> [ConsoleError (''Failed to show error notification: '' @ error_string e)])) @
          [Log LError (''Sync failed for session '' @ name session @ '': '' @ error_string err)] @
          (if syncEndCallback env then [SyncEnd sessionId] else []),
          Inl err))"

definition syncSession :: "Env \<Rightarrow> string \<Rightarrow> SyncManager \<Rightarrow> SyncManager \<times> event list \<times> (js_error + unit)" where
  "syncSession env sessionId m =
     (case find (\<lambda>s. id_s s = sessionId) (sessions m) of
        None \<Rightarrow> (m, [EnterSyncSession sessionId], Inl (JsError ''Session not found''))
      | Some session \<Rightarrow>
          (let evs0 = [EnterSyncSession sessionId,
                       Log LInfo (''Starting sync for session: '' @ name session),
                       Log LInfo (''Source: '' @ sourcePath session),
                       Log LInfo (''Destination: '' @ destinationPath session)] @
                      (if syncStartCallback env then [SyncStart sessionId] else [])
           in case syncWithRsync env session of
                (evs1, Inr u) \<Rightarrow>
                  (case sync_succeeded env sessionId session m of
                     (m', evs2, r) \<Rightarrow> (m', evs0 @ evs1 @ evs2, r))
              | (evs1, Inl err) \<Rightarrow>
                  (case sync_failed env sessionId session err m of
                     (m', evs2, r) \<Rightarrow> (m', evs0 @ evs1 @ evs2, r))))"

definition session_paused :: "SyncManager \<Rightarrow> string \<Rightarrow> bool" where
  \<comment> \<open>\<^verbatim>\<open>session?.paused\<close>: false when no session has the id, or the flag is unset\<close>
  "session_paused m sessionId =
     (case find (\<lambda>s. id_s s = sessionId) (sessions m) of
        None \<Rightarrow> False
      | Some session \<Rightarrow> paused session = Some True)"

definition triggerSync :: "Env \<Rightarrow> string \<Rightarrow> SyncManager \<Rightarrow> SyncManager \<times> event list \<times> (js_error + unit)" where
  "triggerSync env sessionId m =
     (if globallyPaused m
      then (m, [Console (''Sync skipped for session '' @ [dq] @ sessionId @ [dq] @ '': globally paused'')], Inr ())
      else if session_paused m sessionId
      then (m, [Console (''Sync skipped for session '' @ [dq] @
                   (case find (\<lambda>s. id_s s = sessionId) (sessions m) of
                      None \<Rightarrow> [] | Some session \<Rightarrow> name session) @ [dq] @ '': session paused'')],
            Inr ())
      else
        (case logCallbackFactory env of
           Some (Rejects e) \<Rightarrow> (m, [], Inl e)
         | _ \<Rightarrow> syncSession env sessionId m))"

definition sync_now :: "Env \<Rightarrow> string \<Rightarrow> SyncManager \<Rightarrow> SyncManager \<times> event list \<times> (js_error + unit)" where
  \<comment> \<open>the handler of \<^verbatim>\<open>sync-now\<close> in \<^verbatim>\<open>main.ts\<close>, up to the end of its call of
      \<^verbatim>\<open>syncSession\<close>. The log file it opens first may fail to open. What follows the call
      (the log footer, the rewrite of the sessions file and the re-arming through
      \<^verbatim>\<open>updateSessions\<close>, the tray icon) is not part of this function.\<close>
  "sync_now env sessionId m =
     (case startNewSyncLog env of
        Rejects e \<Rightarrow> (m, [ConsoleError (''Failed to sync session: '' @ error_string e)], Inl e)
      | Resolves \<Rightarrow>
          (case syncSession env sessionId m of
             (m', evs, Inr u) \<Rightarrow> (m', evs, Inr u)
           | (m', evs, Inl err) \<Rightarrow>
               (m', evs @ [ConsoleError (''Failed to sync session: '' @ error_string err)], Inl err)))"

section \<open>What the timers run\<close>

definition dayNames :: "string list" where
  "dayNames = [''sunday'', ''monday'', ''tuesday'', ''wednesday'', ''thursday'', ''friday'', ''saturday'']"

definition checkSchedule :: "DateJs \<Rightarrow> ScheduleTrigger \<Rightarrow> bool" where
  \<comment> \<open>whether \<^verbatim>\<open>checkSchedule\<close> calls \<^verbatim>\<open>triggerSync\<close> at the date \<open>d\<close>\<close>
  "checkSchedule d trigger =
     (let parts = map Number_js (js_split CHR '':'' (time trigger));
          hours = (if 0 < length parts then parts ! 0 else None);
          minutes = (if 1 < length parts then parts ! 1 else None)
      in if Some (getHours d) = hours \<and> Some (getMinutes d) = minutes then
           (let currentDay = (if getDay d < length dayNames then Some (dayNames ! getDay d) else None);
                shouldTrigger = (''daily'' \<in> set (days trigger) \<or>
                                 (case currentDay of None \<Rightarrow> False | Some cd \<Rightarrow> cd \<in> set (days trigger)) \<or>
                                 length (days trigger) = 7)
            in shouldTrigger)
         else False)"

fun js_less :: "string \<Rightarrow> string \<Rightarrow> bool" where
  \<comment> \<open>\<^verbatim>\<open>a < b\<close> on strings: code unit by code unit, a proper prefix is smaller\<close>
  "js_less [] [] = False"
| "js_less [] (y # ys) = True"
| "js_less (x # xs) [] = False"
| "js_less (x # xs) (y # ys) =
     ((of_char x :: nat) < of_char y \<or> (x = y \<and> js_less xs ys))"

definition padStart2 :: "nat \<Rightarrow> string" where
  \<comment> \<open>\<^verbatim>\<open>n.toString().padStart(2, '0')\<close>\<close>
  "padStart2 n = replicate (2 - length (show_nat n)) CHR ''0'' @ show_nat n"

definition currentTime :: "DateJs \<Rightarrow> string" where
  "currentTime d = padStart2 (getHours d) @ '':'' @ padStart2 (getMinutes d)"

definition executeSync :: "DateJs \<Rightarrow> IntervalTrigger \<Rightarrow> bool" where
  \<comment> \<open>whether \<^verbatim>\<open>executeSync\<close> calls \<^verbatim>\<open>triggerSync\<close> at the date \<open>d\<close>; an empty string is
      falsy, as a missing bound is\<close>
  "executeSync d trigger =
     (case (startTime trigger, endTime trigger) of
        (Some st, Some en) \<Rightarrow>
          if st \<noteq> [] \<and> en \<noteq> [] then
            (if js_less (currentTime d) st \<or> js_less en (currentTime d) then False else True)
          else True
      | _ \<Rightarrow> True)"

fun wifi_fires :: "string option \<Rightarrow> string option \<Rightarrow> SessionConfig \<Rightarrow> Trigger \<Rightarrow> (string \<times> string) list" where
  \<comment> \<open>the body of \<^verbatim>\<open>session.triggers.forEach\<close> in \<^verbatim>\<open>checkNetwork\<close>: the console line and
      the session id of each \<^verbatim>\<open>triggerSync\<close> call\<close>
  "wifi_fires prev cur session (WiFi wifiTrigger) =
     (if onConnect wifiTrigger \<and> cur = Some (ssid wifiTrigger)
      then [(''WiFi trigger: Connected to '' @ [dq] @ ssid wifiTrigger @ [dq] @ '', syncing session '' @
               [dq] @ name session @ [dq], id_s session)]
      else []) @
     (if \<not> onConnect wifiTrigger \<and> prev = Some (ssid wifiTrigger) \<and> cur \<noteq> Some (ssid wifiTrigger)
      then [(''WiFi trigger: Disconnected from '' @ [dq] @ ssid wifiTrigger @ [dq] @ '', syncing session '' @
               [dq] @ name session @ [dq], id_s session)]
      else [])"
| "wifi_fires prev cur session other = []"

definition checkNetwork :: "string option \<Rightarrow> SyncManager \<Rightarrow> SyncManager \<times> (string \<times> string) list" where
  \<comment> \<open>\<^verbatim>\<open>checkNetwork\<close> once \<^verbatim>\<open>getCurrentSSID\<close> has answered \<open>cur\<close>: the new state and the
      \<^verbatim>\<open>triggerSync\<close> calls, in order\<close>
  "checkNetwork cur m =
     (if cur \<noteq> currentSSID m then
        (m\<lparr>currentSSID := cur\<rparr>,
         concat (map (\<lambda>session. concat (map (wifi_fires (currentSSID m) cur session) (triggers session)))
                   (sessions m)))
      else (m, []))"

definition request_sync :: "Env \<Rightarrow> string \<times> string \<Rightarrow> SyncManager \<times> event list \<Rightarrow> SyncManager \<times> event list" where
  \<comment> \<open>\<^verbatim>\<open>console.log(line); this.triggerSync(id).catch(console.error)\<close>\<close>
  "request_sync env req acc =
     (case acc of (m, evs) \<Rightarrow>
        (case triggerSync env (snd req) m of
           (m', evs', Inr u) \<Rightarrow> (m', evs @ [Console (fst req)] @ evs')
         | (m', evs', Inl err) \<Rightarrow> (m', evs @ [Console (fst req)] @ evs' @ [ConsoleError (error_string err)])))"

fun run_callback :: "Env \<Rightarrow> callback \<Rightarrow> SyncManager \<Rightarrow> SyncManager \<times> event list" where
  "run_callback env MarkStartupExecuted m = (m\<lparr>startupTriggersExecuted := True\<rparr>, [])"
| "run_callback env (CheckSchedule sessionId sessionName trigger) m =
     (if checkSchedule (now env) trigger
      then request_sync env
             (''Schedule trigger: '' @ time trigger @ '' sync for session '' @ [dq] @ sessionName @ [dq], sessionId)
             (m, [])
      else (m, []))"
| "run_callback env (ExecuteSync sessionId sessionName trigger) m =
     (if executeSync (now env) trigger
      then request_sync env
             (''Interval trigger: Every '' @ show_nat (intervalMinutes trigger) @ ''min sync for session '' @
                [dq] @ sessionName @ [dq], sessionId)
             (m, [])
      else (m, []))"
| "run_callback env (StartupFire sessionId sessionName trigger) m =
     request_sync env
       (''Startup trigger: Syncing session '' @ [dq] @ sessionName @ [dq] @ '' after '' @
          show_thousandths (delayMs trigger) @ ''s delay'', sessionId)
       (m, [])"
| "run_callback env (DebounceFire sessionId sessionName debounceKey filename) m =
     (case request_sync env
             (''File change trigger: '' @ [dq] @ filename @ [dq] @ '' changed, syncing session '' @
                [dq] @ sessionName @ [dq], sessionId)
             (m, []) of
        (m', evs) \<Rightarrow> (m'\<lparr>timers := AList.delete debounceKey (timers m')\<rparr>, evs))"
| "run_callback env CheckNetwork m =
     (case checkNetwork (getCurrentSSID env) m of
        (m', reqs) \<Rightarrow> fold (request_sync env) reqs (m', []))"

definition fire :: "Env \<Rightarrow> nat \<Rightarrow> SyncManager \<Rightarrow> SyncManager \<times> event list" where
  \<comment> \<open>the runtime runs the live timer with handle \<open>h\<close>: a timeout is gone once it runs, an
      interval is due again one period later\<close>
  "fire env h m =
     (case find (\<lambda>t. t_handle t = h) (liveTimers m) of
        None \<Rightarrow> (m, [])
      | Some t \<Rightarrow>
          run_callback env (t_cb t)
            (case t_repeat t of
               None \<Rightarrow> clearTimer h m
             | Some period \<Rightarrow>
                 m\<lparr>liveTimers := map (\<lambda>x. if t_handle x = h then x\<lparr>t_due := clock m + period\<rparr> else x)
                                    (liveTimers m)\<rparr>))"

definition fs_event :: "Env \<Rightarrow> nat \<Rightarrow> string \<Rightarrow> SyncManager \<Rightarrow> SyncManager" where
  \<comment> \<open>the listener of the watcher with handle \<open>h\<close>, called with a file name: the debounce\<close>
  "fs_event env h filename m =
     (case find (\<lambda>w. w_handle w = h) (liveWatchers m) of
        None \<Rightarrow> m
      | Some w \<Rightarrow>
          if filename \<noteq> [] \<and>
             \<not> (case ignorePatterns (w_trigger w) of
                  None \<Rightarrow> False
                | Some ps \<Rightarrow> list_ex (\<lambda>pattern. regexTest env pattern filename) ps)
          then
            (let debounceKey = w_sid w @ ''-filechange-'' @ w_path w;
                 m1 = (case map_of (timers m) debounceKey of
                         None \<Rightarrow> m | Some existingTimer \<Rightarrow> clearTimer existingTimer m);
                 m2 = setTimeout (DebounceFire (w_sid w) (w_name w) debounceKey filename)
                        (debounceMs (w_trigger w)) m1
             in m2\<lparr>timers := AList.update debounceKey (nextHandle m1) (timers m2)\<rparr>)
          else m)"

text \<open>
  One step of the scheduler: one of its methods is called, the clock advances, a live
  timer that is due runs, or a watcher reports a change. The reachable states are those
  that a run of steps leads to from a newly constructed manager.
\<close>

inductive step :: "SyncManager \<Rightarrow> SyncManager \<Rightarrow> bool" where
  s_start: "step m (start env m)"
| s_stop: "step m (stop m)"
| s_update: "step m (updateSessions env ss m)"
| s_tick: "step m (m\<lparr>clock := clock m + dt\<rparr>)"
| s_fire: "t \<in> set (liveTimers m) \<Longrightarrow> t_due t \<le> clock m \<Longrightarrow> step m (fst (fire env (t_handle t) m))"
| s_fs_event: "step m (fs_event env h filename m)"
| s_sync_now: "step m (fst (sync_now env sessionId m))"
| s_pauseAll: "step m (pauseAllSessions m)"
| s_resumeAll: "step m (resumeAllSessions m)"
| s_pause: "step m (pauseSession sessionId m)"
| s_resume: "step m (resumeSession sessionId m)"

definition reachable :: "SyncManager \<Rightarrow> bool" where
  "reachable m = (\<exists>ss t. step\<^sup>*\<^sup>* (new_SyncManager ss t) m)"

section \<open>Observers and example configurations\<close>

subsection \<open>Observers of a trace\<close>


fun is_Save :: "event \<Rightarrow> bool" where
  "is_Save (SaveSessions ss) = True"
| "is_Save e = False"

fun is_Notification :: "event \<Rightarrow> bool" where
  "is_Notification (Notification t b k) = True"
| "is_Notification e = False"

fun is_SyncEnd :: "event \<Rightarrow> bool" where
  "is_SyncEnd (SyncEnd i) = True"
| "is_SyncEnd e = False"

fun is_Enter :: "event \<Rightarrow> bool" where
  "is_Enter (EnterSyncSession i) = True"
| "is_Enter e = False"

subsection \<open>The requests of a timer callback\<close>

fun callback_requests :: "Env \<Rightarrow> callback \<Rightarrow> SyncManager \<Rightarrow> string list" where
  \<comment> \<open>the ids of the sessions for which the callback calls \<^verbatim>\<open>triggerSync\<close>, in order\<close>
  "callback_requests env MarkStartupExecuted m = []"
| "callback_requests env (CheckSchedule sessionId sessionName trigger) m =
     (if checkSchedule (now env) trigger then [sessionId] else [])"
| "callback_requests env (ExecuteSync sessionId sessionName trigger) m =
     (if executeSync (now env) trigger then [sessionId] else [])"
| "callback_requests env (StartupFire sessionId sessionName trigger) m = [sessionId]"
| "callback_requests env (DebounceFire sessionId sessionName debounceKey filename) m = [sessionId]"
| "callback_requests env CheckNetwork m = map snd (snd (checkNetwork (getCurrentSSID env) m))"

subsection \<open>Startup timers\<close>





subsection \<open>The network polling loop\<close>

fun is_WiFi :: "Trigger \<Rightarrow> bool" where
  "is_WiFi (WiFi w) = True"
| "is_WiFi tr = False"

definition is_net_loop :: "timer \<Rightarrow> bool" where
  \<comment> \<open>a repeating timer that runs \<^verbatim>\<open>checkNetwork\<close>: a network polling loop\<close>
  "is_net_loop t = (t_cb t = CheckNetwork \<and> t_repeat t \<noteq> None)"

definition net_loops :: "SyncManager \<Rightarrow> timer list" where
  "net_loops m = filter is_net_loop (liveTimers m)"

definition engine_inv :: "SyncManager \<Rightarrow> bool" where
  \<comment> \<open>handles are fresh and distinct, no key of the timer table holds the handle of the
      network watcher, and the network watcher is the one polling loop\<close>
  "engine_inv m =
     ((\<forall>t \<in> set (liveTimers m). t_handle t < nextHandle m) \<and>
      distinct (map t_handle (liveTimers m)) \<and>
      (\<forall>x \<in> set (timers m). snd x < nextHandle m \<and> networkWatcher m \<noteq> Some (snd x)) \<and>
      (networkWatcher m = None \<longrightarrow> net_loops m = []) \<and>
      (\<forall>h. networkWatcher m = Some h \<longrightarrow>
         h < nextHandle m \<and> (\<exists>t. net_loops m = [t] \<and> t_handle t = h \<and> t_repeat t = Some 10000)))"

subsection \<open>Example configurations\<close>

text \<open>
  The example session is the one of the end-to-end scenario: source \<^verbatim>\<open>/tmp/src\<close>, one
  exclude pattern, \<^verbatim>\<open>updateOnly\<close> set. The other sessions are variants of it.
\<close>

definition ex_rc :: RemoteConnection where
  "ex_rc = \<lparr>host = ''h'', username = ''u'', password = Some ''secret'', port = None,
            remotePath = ''p'', moduleName = Some ''m''\<rparr>"

definition ex_session :: SessionConfig where
  "ex_session =
     \<lparr>id_s = ''s1'', name = ''Docs'', sourcePath = ''/tmp/src'',
      destinationPath = ''rsync://u@h:873/m/p'', triggers = [],
      excludePatterns = Some [''*.tmp''], lastSync = None, lastSyncStatus = None,
      lastSyncError = None, enabled = True, paused = None,
      rsyncOptions = Some \<lparr>deleteOnDestination = False, compress = False,
                            preservePermissions = False, updateOnly = True\<rparr>,
      remoteConnection = Some ex_rc\<rparr>"

definition ex_env :: Env where
  "ex_env =
     \<lparr>toISOString = ''2025-01-06T14:30:00.000Z'',
      now = \<lparr>getHours = 14, getMinutes = 30, getDay = 1\<rparr>,
      fs_access = (\<lambda>p. True),
      execAsync = (\<lambda>cmd pw. ExecOk [] []),
      duration = 2,
      saveSessionsCallback = Some Resolves,
      notificationCallback = Some Resolves,
      syncStartCallback = True,
      syncEndCallback = True,
      logCallbackFactory = Some Resolves,
      startNewSyncLog = Resolves,
      getCurrentSSID = None,
      fs_watch = (\<lambda>p. True),
      regexTest = (\<lambda>pattern filename. False)\<rparr>"

definition ex_manager :: SyncManager where
  "ex_manager = new_SyncManager [ex_session] 0"



definition refused_message :: string where
  "refused_message = ''Command failed: rsync: failed to connect to h (10.0.0.2): Connection refused (111)''"

definition refused_env :: Env where
  "refused_env = ex_env\<lparr>execAsync := (\<lambda>cmd pw. ExecFail refused_message)\<rparr>"

definition denied_message :: string where
  "denied_message = ''Command failed: rsync: send_files failed to open: Permission denied (13); rsync: failed to connect to h (10.0.0.2): Connection refused (111)''"

definition denied_env :: Env where
  "denied_env = ex_env\<lparr>execAsync := (\<lambda>cmd pw. ExecFail denied_message)\<rparr>"

definition save_fails_env :: Env where
  "save_fails_env = ex_env\<lparr>saveSessionsCallback := Some (Rejects (JsError ''EACCES: permission denied''))\<rparr>"



definition office_hours :: IntervalTrigger where
  "office_hours = \<lparr>intervalMinutes = 30, startTime = Some ''09:00'', endTime = Some ''17:00''\<rparr>"


definition every5 :: IntervalTrigger where
  "every5 = \<lparr>intervalMinutes = 5, startTime = None, endTime = None\<rparr>"

definition every10 :: IntervalTrigger where
  "every10 = \<lparr>intervalMinutes = 10, startTime = None, endTime = None\<rparr>"

definition two_intervals_session :: SessionConfig where
  "two_intervals_session =
     ex_session\<lparr>triggers := [Interval every5, Interval every10, Startup \<lparr>delayMs = 30000\<rparr>]\<rparr>"

definition home_session :: SessionConfig where
  "home_session = ex_session\<lparr>triggers := [WiFi \<lparr>ssid = ''home'', onConnect = True\<rparr>]\<rparr>"

definition disabled_session :: SessionConfig where
  "disabled_session =
     ex_session\<lparr>id_s := ''s2'', name := ''Photos'', enabled := False,
                 triggers := [WiFi \<lparr>ssid = ''home'', onConnect = True\<rparr>]\<rparr>"

definition home_env :: Env where
  "home_env = ex_env\<lparr>getCurrentSSID := Some ''home''\<rparr>"

section \<open>Properties\<close>

subsection \<open>The events of one run of the executor\<close>

text \<open>
  What \<^verbatim>\<open>syncWithRsync\<close> tells the outside, by kind: log lines, and one call of
  \<^verbatim>\<open>execAsync\<close>.
\<close>

lemma scan_line_events:
  "set (fst (scan_line l acc)) \<subseteq> set (fst acc) \<union> {Log LInfo l}"
  by (cases acc) (auto simp: scan_line_def split: option.splits)

lemma fold_scan_line_events:
  "set (fst (fold scan_line ls acc)) \<subseteq> set (fst acc) \<union> Log LInfo ` set ls"
proof (induction ls arbitrary: acc)
  case Nil
  show ?case by simp
next
  case (Cons l ls)
  have "set (fst (fold scan_line ls (scan_line l acc))) \<subseteq> set (fst (scan_line l acc)) \<union> Log LInfo ` set ls"
    by (rule Cons.IH)
  with scan_line_events [of l acc] show ?case by auto
qed

lemma stdout_events_kinds:
  assumes "e \<in> set (stdout_events d out)"
  shows "(\<exists>x. e = Log LInfo x) \<or> e = Log LSuccess (''Transfer completed in '' @ show_nat d @ ''s'')"
proof (cases "out = []")
  case True
  with assms show ?thesis by (simp add: stdout_events_def)
next
  case False
  obtain evs f t where fo: "fold scan_line (filter (\<lambda>line. js_trim line \<noteq> []) (js_split CHR 0x0A out)) ([], 0, []) = (evs, f, t)"
    by (cases "fold scan_line (filter (\<lambda>line. js_trim line \<noteq> []) (js_split CHR 0x0A out)) ([], 0, [])") auto
  have "set evs \<subseteq> range (Log LInfo)"
    using fold_scan_line_events [of "filter (\<lambda>line. js_trim line \<noteq> []) (js_split CHR 0x0A out)" "([], 0, [])"]
    unfolding fo by auto
  with assms False fo show ?thesis
    by (auto simp: stdout_events_def split: if_splits)
qed

lemma stderr_events_kinds:
  "e \<in> set (stderr_events err) \<Longrightarrow> \<exists>x. e = Log LWarning x"
  by (auto simp: stderr_events_def split: if_splits)

lemma option_events_kinds:
  "e \<in> set (option_events session) \<Longrightarrow> \<exists>x. e = Log LInfo x"
  by (auto simp: option_events_def Let_def split: if_splits)

lemma run_rsync_kinds:
  assumes "e \<in> set (fst (run_rsync env session rc))"
  shows "(\<exists>x. e = Log LInfo x) \<or> (\<exists>x. e = Log LWarning x) \<or>
         (\<exists>x. e = Log LError x \<and> snd (run_rsync env session rc) \<noteq> Inr ()) \<or>
         e = Log LSuccess (''Transfer completed in '' @ show_nat (duration env) @ ''s'') \<or>
         (\<exists>c p. e = Exec c p)"
proof (cases "execAsync env (rsync_command session) (rsync_password rc)")
  case (ExecOk out err)
  with assms show ?thesis
    by (auto simp: run_rsync_def Let_def split: if_splits
          dest: stdout_events_kinds stderr_events_kinds option_events_kinds)
next
  case (ExecFail msg)
  with assms show ?thesis
    by (auto simp: run_rsync_def Let_def split: if_splits dest: option_events_kinds)
qed

lemma syncWithRsync_kinds:
  assumes "e \<in> set (fst (syncWithRsync env session))"
  shows "(\<exists>x. e = Log LInfo x) \<or> (\<exists>x. e = Log LWarning x) \<or>
         (\<exists>x. e = Log LError x \<and> snd (syncWithRsync env session) \<noteq> Inr ()) \<or>
         e = Log LSuccess (''Transfer completed in '' @ show_nat (duration env) @ ''s'') \<or>
         (\<exists>c p. e = Exec c p)"
proof (cases "fs_access env (sourcePath session)")
  case False
  with assms show ?thesis by (simp add: syncWithRsync_def)
next
  case True
  show ?thesis
  proof (cases "remoteConnection session")
    case None
    with True assms show ?thesis by (simp add: syncWithRsync_def)
  next
    case (Some rc)
    with True assms
    have "e \<in> set (fst (run_rsync env session rc)) \<or> (\<exists>x. e = Log LInfo x)"
      by (auto simp: syncWithRsync_def case_prod_beta)
    moreover have "snd (syncWithRsync env session) = snd (run_rsync env session rc)"
      using True Some by (simp add: syncWithRsync_def case_prod_beta)
    ultimately show ?thesis
      using run_rsync_kinds [of e env session rc] by auto
  qed
qed





lemma no_save_rsync: "filter is_Save (fst (syncWithRsync env session)) = []"
  by (auto simp: filter_empty_conv dest: syncWithRsync_kinds)

lemma no_notification_rsync: "filter is_Notification (fst (syncWithRsync env session)) = []"
  by (auto simp: filter_empty_conv dest: syncWithRsync_kinds)

lemma no_syncend_rsync: "filter is_SyncEnd (fst (syncWithRsync env session)) = []"
  by (auto simp: filter_empty_conv dest: syncWithRsync_kinds)

lemma no_sync_completed_rsync:
  "Log LSuccess (''Sync completed for session: '' @ nm) \<notin> set (fst (syncWithRsync env session))"
  by (auto dest: syncWithRsync_kinds)

lemma no_error_log_rsync:
  "snd (syncWithRsync env session) = Inr () \<Longrightarrow> Log LError x \<notin> set (fst (syncWithRsync env session))"
  by (auto dest: syncWithRsync_kinds)

lemma no_console_error_rsync:
  "ConsoleError x \<notin> set (fst (syncWithRsync env session))"
  by (auto dest: syncWithRsync_kinds)

lemma no_enter_rsync: "filter is_Enter (fst (syncWithRsync env session)) = []"
  by (auto simp: filter_empty_conv dest: syncWithRsync_kinds)

subsection \<open>The command line\<close>







subsection \<open>Strings and the session list\<close>

lemma js_startsWith_append: "js_startsWith (p @ ys) p"
  by (induction p) simp_all

lemma js_includes_empty: "js_includes s []"
  by (cases s) simp_all

lemma js_includes_append: "js_includes (xs @ p @ ys) p"
proof (induction xs)
  case Nil
  show ?case
  proof (cases "p @ ys")
    case Nil
    then show ?thesis by simp
  next
    case (Cons c cs)
    have "js_startsWith (p @ ys) p" by (rule js_startsWith_append)
    with Cons show ?thesis by simp
  qed
next
  case (Cons x xs)
  then show ?case by simp
qed

lemma find_update_first:
  "(\<And>x. P (f x) = P x) \<Longrightarrow> find P (update_first P f xs) = map_option f (find P xs)"
  by (induction xs) simp_all

lemma find_set_result:
  assumes "find (\<lambda>s. id_s s = sid) (sessions m) = Some session" and "\<And>x. id_s (f x) = id_s x"
  shows "find (\<lambda>s. id_s s = sid) (sessions (set_result sid f m)) = Some (f session)"
  using assms by (simp add: set_result_def find_update_first)

lemma find_update_first_paused:
  assumes "\<And>x. id_s (f x) = id_s x" and "\<And>x. paused (f x) = paused x"
  shows "map_option paused (find (\<lambda>s. id_s s = sid) (update_first Q f xs)) =
         map_option paused (find (\<lambda>s. id_s s = sid) xs)"
  using assms by (induction xs) simp_all

lemma session_paused_set_result:
  assumes "\<And>x. id_s (f x) = id_s x" and "\<And>x. paused (f x) = paused x"
  shows "session_paused (set_result s' f m) sid = session_paused m sid"
proof -
  have "map_option paused (find (\<lambda>s. id_s s = sid) (sessions (set_result s' f m))) =
        map_option paused (find (\<lambda>s. id_s s = sid) (sessions m))"
    using find_update_first_paused [OF assms] by (simp add: set_result_def)
  then show ?thesis
    by (auto simp: session_paused_def split: option.splits)
qed

subsection \<open>The two paths of syncSession\<close>

lemma syncSession_failed_eq:
  assumes "find (\<lambda>s. id_s s = sid) (sessions m) = Some session"
      and "snd (syncWithRsync env session) = Inl err"
  shows "syncSession env sid m =
     (fst (sync_failed env sid session err m),
      ([EnterSyncSession sid,
        Log LInfo (''Starting sync for session: '' @ name session),
        Log LInfo (''Source: '' @ sourcePath session),
        Log LInfo (''Destination: '' @ destinationPath session)] @
       (if syncStartCallback env then [SyncStart sid] else [])) @
      fst (syncWithRsync env session) @ fst (snd (sync_failed env sid session err m)),
      Inl err)"
proof -
  obtain evs where "syncWithRsync env session = (evs, Inl err)"
    using assms(2) by (cases "syncWithRsync env session") auto
  with assms(1) show ?thesis
    by (simp add: syncSession_def Let_def sync_failed_def)
qed

lemma syncSession_succeeded_eq:
  assumes "find (\<lambda>s. id_s s = sid) (sessions m) = Some session"
      and "snd (syncWithRsync env session) = Inr ()"
  shows "syncSession env sid m =
     (fst (sync_succeeded env sid session m),
      ([EnterSyncSession sid,
        Log LInfo (''Starting sync for session: '' @ name session),
        Log LInfo (''Source: '' @ sourcePath session),
        Log LInfo (''Destination: '' @ destinationPath session)] @
       (if syncStartCallback env then [SyncStart sid] else [])) @
      fst (syncWithRsync env session) @ fst (snd (sync_succeeded env sid session m)),
      Inr ())"
proof -
  obtain evs where "syncWithRsync env session = (evs, Inr ())"
    using assms(2) by (cases "syncWithRsync env session") auto
  with assms(1) show ?thesis
    by (simp add: syncSession_def Let_def sync_succeeded_def)
qed

lemma syncend_success:
  assumes "find (\<lambda>s. id_s s = sid) (sessions m) = Some session"
      and "snd (syncWithRsync env session) = Inr ()"
  shows "filter is_SyncEnd (fst (snd (syncSession env sid m))) =
           (if syncEndCallback env then [SyncEnd sid] else [])"
  by (simp add: syncSession_succeeded_eq [OF assms] sync_succeeded_def Let_def no_syncend_rsync
        split: option.split Outcome.split)

subsection \<open>The failure path\<close>

lemma classify_connection_refused:
  "js_includes msg ''Connection refused'' \<Longrightarrow> \<not> js_includes msg ''Permission denied'' \<Longrightarrow>
   \<not> js_includes msg ''No such file or directory'' \<Longrightarrow>
   classify_exec_error msg = JsError ''Connection refused. Check if rsync daemon is running on the remote host.''"
  by (simp add: classify_exec_error_def)

lemma syncWithRsync_exec_fail:
  "fs_access env (sourcePath session) \<Longrightarrow> remoteConnection session = Some rc \<Longrightarrow>
   execAsync env (rsync_command session) (rsync_password rc) = ExecFail msg \<Longrightarrow>
   snd (syncWithRsync env session) = Inl (classify_exec_error msg)"
  by (simp add: syncWithRsync_def run_rsync_def Let_def case_prod_beta)

text \<open>
  Claim C2, as amended. When \<^verbatim>\<open>syncWithRsync\<close> throws for a session that exists,
  \<^verbatim>\<open>syncSession\<close> throws the same error to its caller; the session has \<^verbatim>\<open>lastSync\<close> set to
  the current time, \<^verbatim>\<open>lastSyncStatus\<close> \<^verbatim>\<open>error\<close> and \<^verbatim>\<open>lastSyncError\<close> the message of the
  error; the persistence callback, when there is one, is called once, with the updated
  sessions; the notification callback, when there is one, is called once, with a body that
  holds the session name and the message; the end-sync callback, when there is one, is
  called once, as it is when the sync succeeds. The message is the connection-refused one
  when the text of the subprocess error contains \<^verbatim>\<open>Connection refused\<close> and contains
  neither \<^verbatim>\<open>Permission denied\<close> nor \<^verbatim>\<open>No such file or directory\<close>, which the code tests
  first.
\<close>

theorem C2_failure:
  assumes "find (\<lambda>s. id_s s = sid) (sessions m) = Some session"
      and "snd (syncWithRsync env session) = Inl err"
  shows "snd (snd (syncSession env sid m)) = Inl err
       \<and> find (\<lambda>s. id_s s = sid) (sessions (fst (syncSession env sid m))) =
           Some (session\<lparr>lastSync := Some (toISOString env), lastSyncStatus := Some StatusError,
                         lastSyncError := Some (message err)\<rparr>)
       \<and> filter is_Save (fst (snd (syncSession env sid m))) =
           (if saveSessionsCallback env = None then [] else [SaveSessions (sessions (fst (syncSession env sid m)))])
       \<and> (\<exists>body. filter is_Notification (fst (snd (syncSession env sid m))) =
                    (if notificationCallback env = None then []
                     else [Notification ''imeSync - Sync Error'' body ''error''])
                \<and> js_includes body (name session) \<and> js_includes body (message err))
       \<and> filter is_SyncEnd (fst (snd (syncSession env sid m))) =
           (if syncEndCallback env then [SyncEnd sid] else [])
       \<and> (\<forall>env'. snd (syncWithRsync env' session) = Inr () \<longrightarrow>
             filter is_SyncEnd (fst (snd (syncSession env' sid m))) =
               (if syncEndCallback env' then [SyncEnd sid] else []))
       \<and> (\<forall>rc msg. fs_access env (sourcePath session) \<and> remoteConnection session = Some rc \<and>
             execAsync env (rsync_command session) (rsync_password rc) = ExecFail msg \<and>
             js_includes msg ''Connection refused'' \<and> \<not> js_includes msg ''Permission denied'' \<and>
             \<not> js_includes msg ''No such file or directory''
             \<longrightarrow> message err = ''Connection refused. Check if rsync daemon is running on the remote host.'')"
proof -
  note eq = syncSession_failed_eq [OF assms]
  let ?body = "''Sync failed for '' @ [dq] @ name session @ [dq] @ '': '' @
                 (if message err \<noteq> [] then message err else ''Unknown error'')"
  have a: "snd (snd (syncSession env sid m)) = Inl err" by (simp add: eq)
  have b: "find (\<lambda>s. id_s s = sid) (sessions (fst (syncSession env sid m))) =
           Some (session\<lparr>lastSync := Some (toISOString env), lastSyncStatus := Some StatusError,
                         lastSyncError := Some (message err)\<rparr>)"
    using find_set_result [OF assms(1), of "\<lambda>s. s\<lparr>lastSync := Some (toISOString env), lastSyncStatus := Some StatusError, lastSyncError := Some (message err)\<rparr>"]
    by (simp add: eq sync_failed_def Let_def)
  have c: "filter is_Save (fst (snd (syncSession env sid m))) =
           (if saveSessionsCallback env = None then [] else [SaveSessions (sessions (fst (syncSession env sid m)))])"
    by (simp add: eq sync_failed_def Let_def no_save_rsync split: option.split Outcome.split)
  have d1: "filter is_Notification (fst (snd (syncSession env sid m))) =
                    (if notificationCallback env = None then []
                     else [Notification ''imeSync - Sync Error'' ?body ''error''])"
    by (simp add: eq sync_failed_def Let_def no_notification_rsync split: option.split Outcome.split)
  have d2: "js_includes ?body (name session)"
    using js_includes_append [of "''Sync failed for '' @ [dq]" "name session"] by simp
  have d3: "js_includes ?body (message err)"
  proof (cases "message err = []")
    case True
    then show ?thesis by (simp only: js_includes_empty)
  next
    case False
    then show ?thesis
      using js_includes_append [of "''Sync failed for '' @ [dq] @ name session @ [dq] @ '': ''" "message err" "[]"]
      by simp
  qed
  have e: "filter is_SyncEnd (fst (snd (syncSession env sid m))) =
           (if syncEndCallback env then [SyncEnd sid] else [])"
    by (simp add: eq sync_failed_def Let_def no_syncend_rsync split: option.split Outcome.split)
  have f: "\<forall>rc msg. fs_access env (sourcePath session) \<and> remoteConnection session = Some rc \<and>
             execAsync env (rsync_command session) (rsync_password rc) = ExecFail msg \<and>
             js_includes msg ''Connection refused'' \<and> \<not> js_includes msg ''Permission denied'' \<and>
             \<not> js_includes msg ''No such file or directory''
             \<longrightarrow> message err = ''Connection refused. Check if rsync daemon is running on the remote host.''"
  proof (intro allI impI, elim conjE)
    fix rc msg
    assume h: "fs_access env (sourcePath session)" "remoteConnection session = Some rc"
       "execAsync env (rsync_command session) (rsync_password rc) = ExecFail msg"
       "js_includes msg ''Connection refused''" "\<not> js_includes msg ''Permission denied''"
       "\<not> js_includes msg ''No such file or directory''"
    from syncWithRsync_exec_fail [OF h(1,2,3)] assms(2)
    have "err = classify_exec_error msg" by simp
    with classify_connection_refused [OF h(4,5,6)]
    show "message err = ''Connection refused. Check if rsync daemon is running on the remote host.''"
      by simp
  qed
  have g: "\<forall>env'. snd (syncWithRsync env' session) = Inr () \<longrightarrow>
             filter is_SyncEnd (fst (snd (syncSession env' sid m))) =
               (if syncEndCallback env' then [SyncEnd sid] else [])"
    using syncend_success [OF assms(1)] by blast
  from a b c d1 d2 d3 e f g show ?thesis by blast
qed

lemma find_ex: "find (\<lambda>s. id_s s = ''s1'') (sessions ex_manager) = Some ex_session"
  by (simp add: ex_manager_def new_SyncManager_def ex_session_def)

lemma classify_refused:
  "classify_exec_error refused_message = JsError ''Connection refused. Check if rsync daemon is running on the remote host.''"
  by (simp add: classify_exec_error_def refused_message_def)

lemma classify_denied:
  "classify_exec_error denied_message = JsError ''Permission denied. Check read permissions on source and write permissions on destination.''"
  by (simp add: classify_exec_error_def denied_message_def)

lemma rsync_refused:
  "snd (syncWithRsync refused_env ex_session) =
     Inl (JsError ''Connection refused. Check if rsync daemon is running on the remote host.'')"
  by (simp add: syncWithRsync_def run_rsync_def Let_def case_prod_beta refused_env_def ex_env_def
        ex_session_def classify_refused)

lemma rsync_denied:
  "snd (syncWithRsync denied_env ex_session) =
     Inl (JsError ''Permission denied. Check read permissions on source and write permissions on destination.'')"
  by (simp add: syncWithRsync_def run_rsync_def Let_def case_prod_beta denied_env_def ex_env_def
        ex_session_def classify_denied)

text \<open>
  Witness for claim C2: a refused connection, on the example session.
\<close>

theorem C2_witness:
  "snd (snd (syncSession refused_env ''s1'' ex_manager)) =
     Inl (JsError ''Connection refused. Check if rsync daemon is running on the remote host.'')
   \<and> find (\<lambda>s. id_s s = ''s1'') (sessions (fst (syncSession refused_env ''s1'' ex_manager))) =
       Some (ex_session\<lparr>lastSync := Some ''2025-01-06T14:30:00.000Z'', lastSyncStatus := Some StatusError,
          lastSyncError := Some ''Connection refused. Check if rsync daemon is running on the remote host.''\<rparr>)
   \<and> filter is_SyncEnd (fst (snd (syncSession refused_env ''s1'' ex_manager))) = [SyncEnd ''s1'']"
  using C2_failure [OF find_ex rsync_refused]
  by (simp add: refused_env_def ex_env_def)

text \<open>
  Claim C2 as stated fails: an error text that contains \<^verbatim>\<open>Connection refused\<close> after
  \<^verbatim>\<open>Permission denied\<close> is reported with the permission message, which does not mention a
  refused connection.
\<close>

theorem C2_cex:
  "execAsync denied_env (rsync_command ex_session) (rsync_password ex_rc) = ExecFail denied_message
   \<and> js_includes denied_message ''Connection refused''
   \<and> map lastSyncError (sessions (fst (syncSession denied_env ''s1'' ex_manager))) =
       [Some ''Permission denied. Check read permissions on source and write permissions on destination.'']
   \<and> \<not> js_includes ''Permission denied. Check read permissions on source and write permissions on destination.''
         ''Connection refused''"
proof -
  have a: "execAsync denied_env (rsync_command ex_session) (rsync_password ex_rc) = ExecFail denied_message"
    by (simp add: denied_env_def ex_env_def)
  have b: "js_includes denied_message ''Connection refused''"
    by (simp add: denied_message_def)
  have c: "map lastSyncError (sessions (fst (syncSession denied_env ''s1'' ex_manager))) =
       [Some ''Permission denied. Check read permissions on source and write permissions on destination.'']"
    unfolding syncSession_failed_eq [OF find_ex rsync_denied]
    by (simp add: sync_failed_def Let_def set_result_def
          ex_manager_def new_SyncManager_def ex_session_def)
  have d: "\<not> js_includes ''Permission denied. Check read permissions on source and write permissions on destination.''
         ''Connection refused''"
    by simp
  from a b c d show ?thesis by blast
qed

subsection \<open>A persistence callback that rejects\<close>

text \<open>
  Claim C10. When \<^verbatim>\<open>syncWithRsync\<close> returns and the persistence callback then rejects,
  \<^verbatim>\<open>syncSession\<close> returns normally: the session has \<^verbatim>\<open>lastSyncStatus\<close> \<^verbatim>\<open>success\<close> and no
  \<^verbatim>\<open>lastSyncError\<close>, the line \<^verbatim>\<open>Sync completed for session: ...\<close> is logged exactly once, the
  end-sync callback (when there is one) is called exactly once, the failure to save is
  logged as a warning, and nothing is logged as an error or shown as a notification.
\<close>

theorem C10_save_throws:
  assumes "find (\<lambda>s. id_s s = sid) (sessions m) = Some session"
      and "snd (syncWithRsync env session) = Inr ()"
      and "saveSessionsCallback env = Some (Rejects e)"
  shows "snd (snd (syncSession env sid m)) = Inr ()
       \<and> find (\<lambda>s. id_s s = sid) (sessions (fst (syncSession env sid m))) =
           Some (session\<lparr>lastSync := Some (toISOString env), lastSyncStatus := Some StatusSuccess,
                         lastSyncError := None\<rparr>)
       \<and> count_list (fst (snd (syncSession env sid m)))
           (Log LSuccess (''Sync completed for session: '' @ name session)) = 1
       \<and> filter is_SyncEnd (fst (snd (syncSession env sid m))) =
           (if syncEndCallback env then [SyncEnd sid] else [])
       \<and> Log LWarning (''Failed to save session data after sync: '' @ error_string e)
             \<in> set (fst (snd (syncSession env sid m)))
       \<and> (\<forall>x. Log LError x \<notin> set (fst (snd (syncSession env sid m))))
       \<and> (\<forall>x. ConsoleError x \<notin> set (fst (snd (syncSession env sid m))))
       \<and> filter is_Notification (fst (snd (syncSession env sid m))) = []"
proof -
  note eq = syncSession_succeeded_eq [OF assms(1,2)]
  have a: "snd (snd (syncSession env sid m)) = Inr ()" by (simp add: eq)
  have b: "find (\<lambda>s. id_s s = sid) (sessions (fst (syncSession env sid m))) =
           Some (session\<lparr>lastSync := Some (toISOString env), lastSyncStatus := Some StatusSuccess,
                         lastSyncError := None\<rparr>)"
    using find_set_result [OF assms(1), of "\<lambda>s. s\<lparr>lastSync := Some (toISOString env), lastSyncStatus := Some StatusSuccess, lastSyncError := None\<rparr>"]
    by (simp add: eq sync_succeeded_def Let_def)
  have c: "count_list (fst (snd (syncSession env sid m)))
           (Log LSuccess (''Sync completed for session: '' @ name session)) = 1"
    using no_sync_completed_rsync [of "name session" env session]
    by (simp add: eq sync_succeeded_def Let_def assms(3))
  have d: "filter is_SyncEnd (fst (snd (syncSession env sid m))) =
           (if syncEndCallback env then [SyncEnd sid] else [])"
    by (simp add: eq sync_succeeded_def Let_def no_syncend_rsync assms(3))
  have w: "Log LWarning (''Failed to save session data after sync: '' @ error_string e)
              \<in> set (fst (snd (syncSession env sid m)))"
    by (simp add: eq sync_succeeded_def Let_def assms(3))
  have f: "\<forall>x. Log LError x \<notin> set (fst (snd (syncSession env sid m)))"
    using no_error_log_rsync [OF assms(2)]
    by (simp add: eq sync_succeeded_def Let_def assms(3))
  have g: "\<forall>x. ConsoleError x \<notin> set (fst (snd (syncSession env sid m)))"
    using no_console_error_rsync [of _ env session]
    by (simp add: eq sync_succeeded_def Let_def assms(3))
  have h: "filter is_Notification (fst (snd (syncSession env sid m))) = []"
    by (simp add: eq sync_succeeded_def Let_def no_notification_rsync assms(3))
  from a b c d w f g h show ?thesis by blast
qed

lemma rsync_ok: "snd (syncWithRsync save_fails_env ex_session) = Inr ()"
  by (simp add: syncWithRsync_def run_rsync_def Let_def case_prod_beta save_fails_env_def ex_env_def
        ex_session_def)

text \<open>
  Witness for claim C10: the example session with a persistence callback that rejects.
\<close>

theorem C10_witness:
  "snd (snd (syncSession save_fails_env ''s1'' ex_manager)) = Inr ()
   \<and> find (\<lambda>s. id_s s = ''s1'') (sessions (fst (syncSession save_fails_env ''s1'' ex_manager))) =
       Some (ex_session\<lparr>lastSync := Some ''2025-01-06T14:30:00.000Z'', lastSyncStatus := Some StatusSuccess,
          lastSyncError := None\<rparr>)
   \<and> count_list (fst (snd (syncSession save_fails_env ''s1'' ex_manager)))
       (Log LSuccess ''Sync completed for session: Docs'') = 1
   \<and> filter is_SyncEnd (fst (snd (syncSession save_fails_env ''s1'' ex_manager))) = [SyncEnd ''s1'']"
proof -
  have s: "saveSessionsCallback save_fails_env = Some (Rejects (JsError ''EACCES: permission denied''))"
    by (simp add: save_fails_env_def)
  have n: "name ex_session = ''Docs''" by (simp add: ex_session_def)
  show ?thesis
    using C10_save_throws [OF find_ex rsync_ok s]
    by (simp add: save_fails_env_def ex_env_def n)
qed

subsection \<open>The pause gate\<close>

lemma enter_syncSession: "filter is_Enter (fst (snd (syncSession env sid m))) = [EnterSyncSession sid]"
proof (cases "find (\<lambda>s. id_s s = sid) (sessions m)")
  case None
  then show ?thesis by (simp add: syncSession_def)
next
  case (Some session)
  show ?thesis
  proof (cases "snd (syncWithRsync env session)")
    case (Inl err)
    show ?thesis
      by (simp add: syncSession_failed_eq [OF Some Inl] sync_failed_def Let_def no_enter_rsync
            split: option.split Outcome.split)
  next
    case (Inr u)
    then have "snd (syncWithRsync env session) = Inr ()" by simp
    then show ?thesis
      by (simp add: syncSession_succeeded_eq [OF Some] sync_succeeded_def Let_def no_enter_rsync
            split: option.split Outcome.split)
  qed
qed

lemma syncSession_flags:
  "globallyPaused (fst (syncSession env s' m)) = globallyPaused m \<and>
   session_paused (fst (syncSession env s' m)) sid = session_paused m sid"
proof (cases "find (\<lambda>s. id_s s = s') (sessions m)")
  case None
  then show ?thesis by (simp add: syncSession_def)
next
  case (Some session)
  show ?thesis
  proof (cases "snd (syncWithRsync env session)")
    case (Inl err)
    show ?thesis
      by (simp add: syncSession_failed_eq [OF Some Inl] sync_failed_def Let_def
            session_paused_set_result) (simp add: set_result_def)
  next
    case (Inr u)
    then have "snd (syncWithRsync env session) = Inr ()" by simp
    then show ?thesis
      by (simp add: syncSession_succeeded_eq [OF Some] sync_succeeded_def Let_def
            session_paused_set_result) (simp add: set_result_def)
  qed
qed

lemma triggerSync_gate:
  assumes "\<forall>e. logCallbackFactory env \<noteq> Some (Rejects e)"
  shows "filter is_Enter (fst (snd (triggerSync env sid m))) =
           (if \<not> globallyPaused m \<and> \<not> session_paused m sid then [EnterSyncSession sid] else [])"
    and "globallyPaused (fst (triggerSync env sid m)) = globallyPaused m"
    and "session_paused (fst (triggerSync env sid m)) s = session_paused m s"
  using assms enter_syncSession [of env sid m] syncSession_flags [of env sid m]
  by (auto simp: triggerSync_def split: option.splits Outcome.splits)

lemma request_sync_gate:
  assumes "\<forall>e. logCallbackFactory env \<noteq> Some (Rejects e)"
  shows "filter is_Enter (snd (request_sync env req (m, evs))) =
           filter is_Enter evs @
           (if \<not> globallyPaused m \<and> \<not> session_paused m (snd req) then [EnterSyncSession (snd req)] else [])"
    and "globallyPaused (fst (request_sync env req (m, evs))) = globallyPaused m"
    and "session_paused (fst (request_sync env req (m, evs))) s = session_paused m s"
proof -
  obtain m' evs' r where t: "triggerSync env (snd req) m = (m', evs', r)"
    by (cases "triggerSync env (snd req) m") auto
  from triggerSync_gate [OF assms, of "snd req" m] t
  have g: "filter is_Enter evs' =
           (if \<not> globallyPaused m \<and> \<not> session_paused m (snd req) then [EnterSyncSession (snd req)] else [])"
          "globallyPaused m' = globallyPaused m" "\<And>s. session_paused m' s = session_paused m s"
    by simp_all
  show "filter is_Enter (snd (request_sync env req (m, evs))) =
           filter is_Enter evs @
           (if \<not> globallyPaused m \<and> \<not> session_paused m (snd req) then [EnterSyncSession (snd req)] else [])"
    using g(1) t by (cases r) (simp_all add: request_sync_def)
  show "globallyPaused (fst (request_sync env req (m, evs))) = globallyPaused m"
    using g(2) t by (cases r) (simp_all add: request_sync_def)
  show "session_paused (fst (request_sync env req (m, evs))) s = session_paused m s"
    using g(3) t by (cases r) (simp_all add: request_sync_def)
qed

lemma fold_request_sync_gate:
  assumes "\<forall>e. logCallbackFactory env \<noteq> Some (Rejects e)"
  shows "filter is_Enter (snd (fold (request_sync env) reqs (m, evs))) =
           filter is_Enter evs @
           map EnterSyncSession (filter (\<lambda>s. \<not> globallyPaused m \<and> \<not> session_paused m s) (map snd reqs))"
proof (induction reqs arbitrary: m evs)
  case Nil
  show ?case by simp
next
  case (Cons req reqs)
  obtain m' evs' where r: "request_sync env req (m, evs) = (m', evs')"
    by (cases "request_sync env req (m, evs)") auto
  from request_sync_gate [OF assms, of req m evs] r
  have g: "filter is_Enter evs' = filter is_Enter evs @
             (if \<not> globallyPaused m \<and> \<not> session_paused m (snd req) then [EnterSyncSession (snd req)] else [])"
          "globallyPaused m' = globallyPaused m" "\<And>s. session_paused m' s = session_paused m s"
    by simp_all
  show ?case
    by (simp add: r Cons.IH [of m' evs'] g)
qed

lemma run_callback_gate:
  assumes "\<forall>e. logCallbackFactory env \<noteq> Some (Rejects e)"
  shows "filter is_Enter (snd (run_callback env cb m)) =
           map EnterSyncSession
             (filter (\<lambda>s. \<not> globallyPaused m \<and> \<not> session_paused m s) (callback_requests env cb m))"
proof (cases cb)
  case MarkStartupExecuted
  then show ?thesis by simp
next
  case (CheckSchedule i n tr)
  then show ?thesis using request_sync_gate(1) [OF assms, of _ m "[]"] by simp
next
  case (ExecuteSync i n tr)
  then show ?thesis using request_sync_gate(1) [OF assms, of _ m "[]"] by simp
next
  case (StartupFire i n tr)
  then show ?thesis using request_sync_gate(1) [OF assms, of _ m "[]"] by simp
next
  case (DebounceFire i n k f)
  then show ?thesis using request_sync_gate(1) [OF assms, of _ m "[]"]
    by (simp add: case_prod_beta)
next
  case CheckNetwork
  have "snd (run_callback env CheckNetwork m) =
        snd (fold (request_sync env) (snd (checkNetwork (getCurrentSSID env) m))
               (fst (checkNetwork (getCurrentSSID env) m), []))"
    by (simp add: case_prod_beta)
  moreover have "globallyPaused (fst (checkNetwork (getCurrentSSID env) m)) = globallyPaused m"
    by (simp add: checkNetwork_def)
  moreover have "\<And>s. session_paused (fst (checkNetwork (getCurrentSSID env) m)) s = session_paused m s"
    by (simp add: checkNetwork_def session_paused_def)
  ultimately show ?thesis
    using CheckNetwork fold_request_sync_gate [OF assms, of "snd (checkNetwork (getCurrentSSID env) m)"
        "fst (checkNetwork (getCurrentSSID env) m)" "[]"]
    by simp
qed



subsection \<open>Schedule triggers\<close>






lemma setInterval_timers:
  "liveTimers (setInterval cb after m) =
     liveTimers m @ [\<lparr>t_handle = nextHandle m, t_due = clock m + timer_delay after,
                       t_repeat = Some (timer_delay after), t_cb = cb\<rparr>]"
  by (simp add: setInterval_def)




subsection \<open>Interval triggers\<close>

lemma currentTime_0859: "currentTime \<lparr>getHours = 8, getMinutes = 59, getDay = dd\<rparr> = ''08:59''"
  by (simp add: currentTime_def padStart2_def show_nat.simps)

lemma currentTime_0900: "currentTime \<lparr>getHours = 9, getMinutes = 0, getDay = dd\<rparr> = ''09:00''"
  by (simp add: currentTime_def padStart2_def show_nat.simps)

lemma currentTime_1700: "currentTime \<lparr>getHours = 17, getMinutes = 0, getDay = dd\<rparr> = ''17:00''"
  by (simp add: currentTime_def padStart2_def show_nat.simps)

lemma currentTime_1730: "currentTime \<lparr>getHours = 17, getMinutes = 30, getDay = dd\<rparr> = ''17:30''"
  by (simp add: currentTime_def padStart2_def show_nat.simps)

lemma executeSync_iff:
  assumes "startTime tr = Some st" and "endTime tr = Some en" and "st \<noteq> []" and "en \<noteq> []"
  shows "executeSync d tr \<longleftrightarrow> \<not> js_less (currentTime d) st \<and> \<not> js_less en (currentTime d)"
  using assms by (simp add: executeSync_def)

lemma fire_found:
  assumes "find (\<lambda>x. t_handle x = h) (liveTimers m) = Some t" and "t_repeat t = Some p"
  shows "fire env h m =
           run_callback env (t_cb t)
             (m\<lparr>liveTimers := map (\<lambda>x. if t_handle x = h then x\<lparr>t_due := clock m + p\<rparr> else x)
                                (liveTimers m)\<rparr>)"
  using assms by (simp add: fire_def)

text \<open>
  Claim C7, as amended. For an Interval trigger with a start and an end time, a tick
  requests a sync if and only if the current \<^verbatim>\<open>HH:MM\<close> string is neither below the start nor
  above the end in the order of strings: both bounds are inside the window. A tick outside
  the window does nothing and the timer stays live, due again one period later. The timer
  is first due one period after arming; the period is \<^verbatim>\<open>intervalMinutes * 60 * 1000\<close> ms when
  that lies in the range of Node.js timers (1 to 35791 minutes).
\<close>

theorem C7_interval:
  assumes "startTime tr = Some st" and "endTime tr = Some en" and "st \<noteq> []" and "en \<noteq> []"
  shows "(executeSync d tr \<longleftrightarrow> \<not> js_less (currentTime d) st \<and> \<not> js_less en (currentTime d))
       \<and> liveTimers (setupIntervalTrigger s tr m) =
           liveTimers m @
           [\<lparr>t_handle = nextHandle m, t_due = clock m + timer_delay (intervalMinutes tr * 60 * 1000),
             t_repeat = Some (timer_delay (intervalMinutes tr * 60 * 1000)),
             t_cb = ExecuteSync (id_s s) (name s) tr\<rparr>]
       \<and> (1 \<le> intervalMinutes tr \<and> intervalMinutes tr \<le> 35791 \<longrightarrow>
            timer_delay (intervalMinutes tr * 60 * 1000) = intervalMinutes tr * 60 * 1000)
       \<and> (\<forall>h t p sid nm.
            find (\<lambda>x. t_handle x = h) (liveTimers m) = Some t \<and> t_cb t = ExecuteSync sid nm tr \<and>
            t_repeat t = Some p \<longrightarrow>
            fire env h m =
              (if executeSync (now env) tr
               then request_sync env
                      (''Interval trigger: Every '' @ show_nat (intervalMinutes tr) @
                         ''min sync for session '' @ [dq] @ nm @ [dq], sid)
                      (m\<lparr>liveTimers := map (\<lambda>x. if t_handle x = h then x\<lparr>t_due := clock m + p\<rparr> else x)
                                          (liveTimers m)\<rparr>, [])
               else (m\<lparr>liveTimers := map (\<lambda>x. if t_handle x = h then x\<lparr>t_due := clock m + p\<rparr> else x)
                                        (liveTimers m)\<rparr>, [])))"
proof -
  have b: "liveTimers (setupIntervalTrigger s tr m) =
           liveTimers m @
           [\<lparr>t_handle = nextHandle m, t_due = clock m + timer_delay (intervalMinutes tr * 60 * 1000),
             t_repeat = Some (timer_delay (intervalMinutes tr * 60 * 1000)),
             t_cb = ExecuteSync (id_s s) (name s) tr\<rparr>]"
    by (simp add: setupIntervalTrigger_def Let_def setInterval_timers)
  have c: "1 \<le> intervalMinutes tr \<and> intervalMinutes tr \<le> 35791 \<longrightarrow>
            timer_delay (intervalMinutes tr * 60 * 1000) = intervalMinutes tr * 60 * 1000"
    by (simp add: timer_delay_def)
  have d: "\<forall>h t p sid nm.
            find (\<lambda>x. t_handle x = h) (liveTimers m) = Some t \<and> t_cb t = ExecuteSync sid nm tr \<and>
            t_repeat t = Some p \<longrightarrow>
            fire env h m =
              (if executeSync (now env) tr
               then request_sync env
                      (''Interval trigger: Every '' @ show_nat (intervalMinutes tr) @
                         ''min sync for session '' @ [dq] @ nm @ [dq], sid)
                      (m\<lparr>liveTimers := map (\<lambda>x. if t_handle x = h then x\<lparr>t_due := clock m + p\<rparr> else x)
                                          (liveTimers m)\<rparr>, [])
               else (m\<lparr>liveTimers := map (\<lambda>x. if t_handle x = h then x\<lparr>t_due := clock m + p\<rparr> else x)
                                        (liveTimers m)\<rparr>, []))"
    by (auto simp: fire_found)
  from executeSync_iff [OF assms] b c d show ?thesis by blast
qed

text \<open>
  Witness for claim C7, the window 09:00 to 17:00 with a period of 30 minutes: 09:00 is
  inside, 08:59 and 17:30 are outside, and the timer is first due after 1800000 ms.
\<close>

theorem C7_witness:
  "executeSync \<lparr>getHours = 9, getMinutes = 0, getDay = 1\<rparr> office_hours
   \<and> \<not> executeSync \<lparr>getHours = 8, getMinutes = 59, getDay = 1\<rparr> office_hours
   \<and> \<not> executeSync \<lparr>getHours = 17, getMinutes = 30, getDay = 1\<rparr> office_hours
   \<and> map t_due (liveTimers (setupIntervalTrigger ex_session office_hours ex_manager)) = [1800000]"
proof -
  have h: "startTime office_hours = Some ''09:00''" "endTime office_hours = Some ''17:00''"
          "''09:00'' \<noteq> []" "''17:00'' \<noteq> []"
    by (simp_all add: office_hours_def)
  have i: "intervalMinutes office_hours * 60 * 1000 = 1800000"
    by (simp add: office_hours_def)
  have m: "liveTimers ex_manager = []" "clock ex_manager = 0"
    by (simp_all add: ex_manager_def new_SyncManager_def)
  have w: "executeSync d office_hours \<longleftrightarrow>
             \<not> js_less (currentTime d) ''09:00'' \<and> \<not> js_less ''17:00'' (currentTime d)" for d
    by (rule C7_interval [OF h, THEN conjunct1])
  have t: "liveTimers (setupIntervalTrigger ex_session office_hours ex_manager) =
           liveTimers ex_manager @
           [\<lparr>t_handle = nextHandle ex_manager,
             t_due = clock ex_manager + timer_delay (intervalMinutes office_hours * 60 * 1000),
             t_repeat = Some (timer_delay (intervalMinutes office_hours * 60 * 1000)),
             t_cb = ExecuteSync (id_s ex_session) (name ex_session) office_hours\<rparr>]"
    by (rule C7_interval [OF h, THEN conjunct2, THEN conjunct1])
  show ?thesis
    by (simp add: w t i m currentTime_0900 currentTime_0859 currentTime_1730 timer_delay_def)
qed

text \<open>
  Claim C7 as stated fails: at the end time itself (17:00 for a window that ends at
  17:00) the tick still requests a sync.
\<close>

theorem C7_cex:
  "endTime office_hours = Some ''17:00''
   \<and> currentTime \<lparr>getHours = 17, getMinutes = 0, getDay = 1\<rparr> = ''17:00''
   \<and> executeSync \<lparr>getHours = 17, getMinutes = 0, getDay = 1\<rparr> office_hours"
  by (simp add: office_hours_def executeSync_def currentTime_1700 del: One_nat_def)

subsection \<open>What the calls leave unchanged\<close>

text \<open>
  A sync changes the sessions and nothing else; a timer callback changes the sessions,
  the last network identity, the latch and the keys of the timer table.
\<close>

lemma syncSession_frame:
  "fst (syncSession env sid m) = m\<lparr>sessions := sessions (fst (syncSession env sid m))\<rparr>"
proof (cases "find (\<lambda>s. id_s s = sid) (sessions m)")
  case None
  then show ?thesis by (simp add: syncSession_def)
next
  case (Some session)
  show ?thesis
  proof (cases "snd (syncWithRsync env session)")
    case (Inl err)
    show ?thesis
      by (simp add: syncSession_failed_eq [OF Some Inl] sync_failed_def Let_def set_result_def)
  next
    case (Inr u)
    then have "snd (syncWithRsync env session) = Inr ()" by simp
    then show ?thesis
      by (simp add: syncSession_succeeded_eq [OF Some] sync_succeeded_def Let_def set_result_def)
  qed
qed

lemma triggerSync_frame:
  "fst (triggerSync env sid m) = m\<lparr>sessions := sessions (fst (triggerSync env sid m))\<rparr>"
  using syncSession_frame [of env sid m]
  by (auto simp: triggerSync_def split: option.splits Outcome.splits)

lemma request_sync_frame:
  "fst (request_sync env req (m, evs)) = m\<lparr>sessions := sessions (fst (request_sync env req (m, evs)))\<rparr>"
proof -
  obtain m' evs' r where t: "triggerSync env (snd req) m = (m', evs', r)"
    by (cases "triggerSync env (snd req) m") auto
  with triggerSync_frame [of env "snd req" m] have "m' = m\<lparr>sessions := sessions m'\<rparr>" by simp
  with t show ?thesis by (cases r) (simp_all add: request_sync_def)
qed

lemma fold_request_sync_frame:
  "fst (fold (request_sync env) reqs (m, evs)) =
     m\<lparr>sessions := sessions (fst (fold (request_sync env) reqs (m, evs)))\<rparr>"
proof (induction reqs arbitrary: m evs)
  case Nil
  show ?case by simp
next
  case (Cons req reqs)
  obtain m' evs' where r: "request_sync env req (m, evs) = (m', evs')"
    by (cases "request_sync env req (m, evs)") auto
  with request_sync_frame [of env req m evs] have f: "m' = m\<lparr>sessions := sessions m'\<rparr>" by simp
  have "fst (fold (request_sync env) reqs (m', evs')) =
          m'\<lparr>sessions := sessions (fst (fold (request_sync env) reqs (m', evs')))\<rparr>"
    by (rule Cons.IH)
  then have "fst (fold (request_sync env) reqs (m', evs')) =
          (m\<lparr>sessions := sessions m'\<rparr>)\<lparr>sessions := sessions (fst (fold (request_sync env) reqs (m', evs')))\<rparr>"
    using f by simp
  then show ?case by (simp add: r)
qed

lemma sync_now_frame:
  "fst (sync_now env sid m) = m\<lparr>sessions := sessions (fst (sync_now env sid m))\<rparr>"
proof (cases "startNewSyncLog env")
  case Resolves
  obtain m' evs r where s: "syncSession env sid m = (m', evs, r)"
    by (cases "syncSession env sid m") auto
  with syncSession_frame [of env sid m] have "m' = m\<lparr>sessions := sessions m'\<rparr>" by simp
  with s Resolves show ?thesis by (cases r) (simp_all add: sync_now_def)
next
  case (Rejects e)
  then show ?thesis by (simp add: sync_now_def)
qed

lemma frame_intro:
  assumes "m' = m\<lparr>sessions := sessions m'\<rparr>"
  shows "\<exists>ss c l k. m' = m\<lparr>sessions := ss, currentSSID := c, startupTriggersExecuted := l,
           timers := filter k (timers m)\<rparr> \<and> (startupTriggersExecuted m \<longrightarrow> l)"
proof -
  have "m\<lparr>sessions := sessions m', currentSSID := currentSSID m,
          startupTriggersExecuted := startupTriggersExecuted m,
          timers := filter (\<lambda>x. True) (timers m)\<rparr> = m\<lparr>sessions := sessions m'\<rparr>"
    by simp
  with assms have "m' = m\<lparr>sessions := sessions m', currentSSID := currentSSID m,
          startupTriggersExecuted := startupTriggersExecuted m,
          timers := filter (\<lambda>x. True) (timers m)\<rparr>" by simp
  then show ?thesis by blast
qed

lemma run_callback_frame:
  "\<exists>ss c l k. fst (run_callback env cb m) =
     m\<lparr>sessions := ss, currentSSID := c, startupTriggersExecuted := l,
       timers := filter k (timers m)\<rparr> \<and> (startupTriggersExecuted m \<longrightarrow> l)"
proof (cases cb)
  case MarkStartupExecuted
  have "fst (run_callback env MarkStartupExecuted m) =
     m\<lparr>sessions := sessions m, currentSSID := currentSSID m, startupTriggersExecuted := True,
       timers := filter (\<lambda>x. True) (timers m)\<rparr>" by simp
  with MarkStartupExecuted show ?thesis by blast
next
  case (CheckSchedule i n tr)
  show ?thesis
  proof (cases "checkSchedule (now env) tr")
    case True
    with CheckSchedule show ?thesis
      using frame_intro [OF request_sync_frame [of env _ m "[]"]] by simp
  next
    case False
    with CheckSchedule show ?thesis using frame_intro [of m m] by simp
  qed
next
  case (ExecuteSync i n tr)
  show ?thesis
  proof (cases "executeSync (now env) tr")
    case True
    with ExecuteSync show ?thesis
      using frame_intro [OF request_sync_frame [of env _ m "[]"]] by simp
  next
    case False
    with ExecuteSync show ?thesis using frame_intro [of m m] by simp
  qed
next
  case (StartupFire i n tr)
  then show ?thesis
    using frame_intro [OF request_sync_frame [of env _ m "[]"]] by simp
next
  case (DebounceFire i n key f)
  define req where "req = (''File change trigger: '' @ [dq] @ f @ [dq] @ '' changed, syncing session '' @
                [dq] @ n @ [dq], i)"
  obtain m' evs where r: "request_sync env req (m, []) = (m', evs)"
    by (cases "request_sync env req (m, [])") auto
  from request_sync_frame [of env req m "[]"] have f: "m' = m\<lparr>sessions := sessions m'\<rparr>"
    by (simp add: r)
  then have t: "timers m' = timers m" by (metis SyncManager.select_convs(2) SyncManager.surjective SyncManager.update_convs(1))
  have "fst (run_callback env cb m) = m'\<lparr>timers := AList.delete key (timers m')\<rparr>"
    using DebounceFire r [unfolded req_def] by simp
  also have "\<dots> = (m\<lparr>sessions := sessions m'\<rparr>)\<lparr>timers := filter (\<lambda>(k', v). key \<noteq> k') (timers m)\<rparr>"
    using f t by (simp add: AList.delete_eq)
  also have "\<dots> = m\<lparr>sessions := sessions m', currentSSID := currentSSID m,
       startupTriggersExecuted := startupTriggersExecuted m,
       timers := filter (\<lambda>(k', v). key \<noteq> k') (timers m)\<rparr>"
    by simp
  finally show ?thesis by blast
next
  case CheckNetwork
  obtain m1 reqs where c: "checkNetwork (getCurrentSSID env) m = (m1, reqs)"
    by (cases "checkNetwork (getCurrentSSID env) m") auto
  then have m1: "m1 = m\<lparr>currentSSID := currentSSID m1\<rparr>"
    by (auto simp: checkNetwork_def split: if_splits)
  have "fst (run_callback env cb m) = fst (fold (request_sync env) reqs (m1, []))"
    using CheckNetwork c by simp
  also have "\<dots> = m1\<lparr>sessions := sessions (fst (fold (request_sync env) reqs (m1, [])))\<rparr>"
    by (rule fold_request_sync_frame)
  also have "\<dots> = (m\<lparr>currentSSID := currentSSID m1\<rparr>)\<lparr>sessions := sessions (fst (fold (request_sync env) reqs (m1, [])))\<rparr>"
    using m1 by simp
  also have "\<dots> = m\<lparr>sessions := sessions (fst (fold (request_sync env) reqs (m1, []))),
       currentSSID := currentSSID m1, startupTriggersExecuted := startupTriggersExecuted m,
       timers := filter (\<lambda>x. True) (timers m)\<rparr>"
    by simp
  finally show ?thesis by blast
qed

subsection \<open>What stop cancels\<close>

text \<open>
  The timers that survive \<^verbatim>\<open>stop\<close> are those whose handle is neither a value of the timer
  table nor the network watcher.
\<close>

lemma fold_clearTimer:
  "fold clearTimer hs m = m\<lparr>liveTimers := filter (\<lambda>t. t_handle t \<notin> set hs) (liveTimers m)\<rparr>"
proof (induction hs arbitrary: m)
  case Nil
  show ?case by simp
next
  case (Cons h hs)
  have "fold clearTimer (h # hs) m = fold clearTimer hs (clearTimer h m)" by simp
  also have "\<dots> = (clearTimer h m)\<lparr>liveTimers :=
                      filter (\<lambda>t. t_handle t \<notin> set hs) (liveTimers (clearTimer h m))\<rparr>"
    by (rule Cons.IH)
  also have "\<dots> = m\<lparr>liveTimers := filter (\<lambda>t. t_handle t \<notin> set (h # hs)) (liveTimers m)\<rparr>"
    by (simp add: clearTimer_def conj_commute)
  finally show ?case .
qed

lemma stop_liveTimers:
  "liveTimers (stop m) =
     filter (\<lambda>t. t_handle t \<notin> snd ` set (timers m) \<and> networkWatcher m \<noteq> Some (t_handle t))
       (liveTimers m)"
  by (cases "networkWatcher m") (auto simp: stop_def Let_def fold_clearTimer clearTimer_def intro: filter_cong)

lemma stop_fields:
  "timers (stop m) = [] \<and> fileWatchers (stop m) = [] \<and> networkWatcher (stop m) = None \<and>
   startupTriggersExecuted (stop m) = startupTriggersExecuted m \<and> clock (stop m) = clock m \<and>
   nextHandle (stop m) = nextHandle m \<and> sessions (stop m) = sessions m \<and>
   currentSSID (stop m) = currentSSID m \<and> globallyPaused (stop m) = globallyPaused m"
  by (cases "networkWatcher m") (simp_all add: stop_def Let_def fold_clearTimer clearTimer_def)

lemma start_two_intervals:
  "start ex_env (new_SyncManager [two_intervals_session] 0) =
     \<lparr>sessions = [two_intervals_session], timers = [(''s1-interval'', 1)], fileWatchers = [],
      networkWatcher = None, currentSSID = None, startupTriggersExecuted = False,
      globallyPaused = False, clock = 0, nextHandle = 4,
      liveTimers = [\<lparr>t_handle = 0, t_due = 300000, t_repeat = Some 300000,
                      t_cb = ExecuteSync ''s1'' ''Docs'' every5\<rparr>,
                    \<lparr>t_handle = 1, t_due = 600000, t_repeat = Some 600000,
                      t_cb = ExecuteSync ''s1'' ''Docs'' every10\<rparr>,
                    \<lparr>t_handle = 2, t_due = 30000, t_repeat = None,
                      t_cb = StartupFire ''s1'' ''Docs'' \<lparr>delayMs = 30000\<rparr>\<rparr>,
                    \<lparr>t_handle = 3, t_due = 1000, t_repeat = None, t_cb = MarkStartupExecuted\<rparr>],
      liveWatchers = []\<rparr>"
  by (simp add: start_def new_SyncManager_def two_intervals_session_def ex_session_def setupTriggers_def
        setupStartupTrigger_def setupIntervalTrigger_def setTimeout_def setInterval_def timer_delay_def
        every5_def every10_def Let_def)

text \<open>
  Claim C4 fails on the code. A session with two Interval triggers and a Startup trigger
  is armed and then disarmed: the second interval timer took the key \<^verbatim>\<open>s1-interval\<close> of the
  first, the timeouts of \<^verbatim>\<open>setupStartupTrigger\<close> and of \<^verbatim>\<open>start\<close> are stored nowhere, so
  after \<^verbatim>\<open>stop\<close> three timers are still live, and the first interval timer and the Startup
  timer still reach \<^verbatim>\<open>syncSession\<close> when they run.
\<close>

theorem C4_orphaned_timers:
  "map t_cb (liveTimers (stop (start ex_env (new_SyncManager [two_intervals_session] 0)))) =
     [ExecuteSync ''s1'' ''Docs'' every5, StartupFire ''s1'' ''Docs'' \<lparr>delayMs = 30000\<rparr>,
      MarkStartupExecuted]
   \<and> filter is_Enter
        (snd (fire ex_env 0 ((stop (start ex_env (new_SyncManager [two_intervals_session] 0)))\<lparr>clock := 300000\<rparr>))) =
     [EnterSyncSession ''s1'']
   \<and> filter is_Enter
        (snd (fire ex_env 2 ((stop (start ex_env (new_SyncManager [two_intervals_session] 0)))\<lparr>clock := 30000\<rparr>))) =
     [EnterSyncSession ''s1'']"
proof -
  let ?m = "stop (start ex_env (new_SyncManager [two_intervals_session] 0))"
  have f: "\<forall>e. logCallbackFactory ex_env \<noteq> Some (Rejects e)" by (simp add: ex_env_def)
  have m: "?m = \<lparr>sessions = [two_intervals_session], timers = [], fileWatchers = [],
      networkWatcher = None, currentSSID = None, startupTriggersExecuted = False,
      globallyPaused = False, clock = 0, nextHandle = 4,
      liveTimers = [\<lparr>t_handle = 0, t_due = 300000, t_repeat = Some 300000,
                      t_cb = ExecuteSync ''s1'' ''Docs'' every5\<rparr>,
                    \<lparr>t_handle = 2, t_due = 30000, t_repeat = None,
                      t_cb = StartupFire ''s1'' ''Docs'' \<lparr>delayMs = 30000\<rparr>\<rparr>,
                    \<lparr>t_handle = 3, t_due = 1000, t_repeat = None, t_cb = MarkStartupExecuted\<rparr>],
      liveWatchers = []\<rparr>"
    unfolding start_two_intervals by (simp add: stop_def clearTimer_def)
  have a: "map t_cb (liveTimers ?m) =
     [ExecuteSync ''s1'' ''Docs'' every5, StartupFire ''s1'' ''Docs'' \<lparr>delayMs = 30000\<rparr>,
      MarkStartupExecuted]"
    by (simp add: m)
  have p: "\<not> session_paused (x\<lparr>sessions := [two_intervals_session]\<rparr>) ''s1''" for x :: SyncManager
    by (simp add: session_paused_def two_intervals_session_def ex_session_def)
  have b: "filter is_Enter (snd (fire ex_env 0 (?m\<lparr>clock := 300000\<rparr>))) = [EnterSyncSession ''s1'']"
    unfolding m
    by (simp add: fire_def run_callback_gate [OF f] session_paused_def two_intervals_session_def
          ex_session_def executeSync_def every5_def del: run_callback.simps)
  have c: "filter is_Enter (snd (fire ex_env 2 (?m\<lparr>clock := 30000\<rparr>))) = [EnterSyncSession ''s1'']"
    unfolding m
    by (simp add: fire_def clearTimer_def run_callback_gate [OF f] session_paused_def
          two_intervals_session_def ex_session_def del: run_callback.simps)
  from a b c show ?thesis by blast
qed

subsection \<open>Arming and the Startup latch\<close>

lemma fold_watch_path_fields:
  "liveTimers (fst (fold (watch_path env s tr) ps (m, ws))) = liveTimers m \<and>
   clock (fst (fold (watch_path env s tr) ps (m, ws))) = clock m \<and>
   startupTriggersExecuted (fst (fold (watch_path env s tr) ps (m, ws))) = startupTriggersExecuted m \<and>
   sessions (fst (fold (watch_path env s tr) ps (m, ws))) = sessions m \<and>
   networkWatcher (fst (fold (watch_path env s tr) ps (m, ws))) = networkWatcher m \<and>
   timers (fst (fold (watch_path env s tr) ps (m, ws))) = timers m \<and>
   nextHandle m \<le> nextHandle (fst (fold (watch_path env s tr) ps (m, ws)))"
proof (induction ps arbitrary: m ws)
  case Nil
  show ?case by simp
next
  case (Cons p ps)
  show ?case
  proof (cases "fs_watch env p")
    case True
    then show ?thesis
      using Cons.IH [of "m\<lparr>liveWatchers := liveWatchers m @
                [\<lparr>w_handle = nextHandle m, w_sid = id_s s, w_name = name s,
                  w_path = p, w_trigger = tr\<rparr>], nextHandle := Suc (nextHandle m)\<rparr>" "ws @ [nextHandle m]"]
      by (simp add: watch_path_def)
  next
    case False
    then show ?thesis using Cons.IH [of m ws] by (simp add: watch_path_def)
  qed
qed

















subsection \<open>Disabled sessions\<close>

lemma start_home:
  "start ex_env (new_SyncManager [home_session, disabled_session] 0) =
     \<lparr>sessions = [home_session, disabled_session], timers = [], fileWatchers = [],
      networkWatcher = Some 1, currentSSID = None, startupTriggersExecuted = False,
      globallyPaused = False, clock = 0, nextHandle = 3,
      liveTimers = [\<lparr>t_handle = 0, t_due = 0, t_repeat = None, t_cb = CheckNetwork\<rparr>,
                    \<lparr>t_handle = 1, t_due = 10000, t_repeat = Some 10000, t_cb = CheckNetwork\<rparr>,
                    \<lparr>t_handle = 2, t_due = 1000, t_repeat = None, t_cb = MarkStartupExecuted\<rparr>],
      liveWatchers = []\<rparr>"
  by (simp add: start_def new_SyncManager_def home_session_def disabled_session_def ex_session_def
        setupTriggers_def setupWiFiTrigger_def startNetworkMonitoring_def spawn_def
        setTimeout_def setInterval_def timer_delay_def Let_def)

text \<open>
  Claim C9 fails on the code. An enabled and a disabled session both have an on-connect
  WiFi trigger for \<^verbatim>\<open>home\<close>. The enabled one starts the polling loop; when the loop sees
  \<^verbatim>\<open>home\<close>, \<^verbatim>\<open>checkNetwork\<close> goes through all sessions without looking at \<^verbatim>\<open>enabled\<close> and
  the disabled session is synchronised as well.
\<close>

theorem C9_disabled_session_syncs:
  "\<not> enabled disabled_session \<and> id_s disabled_session = ''s2''
   \<and> filter is_Enter
        (snd (fire home_env 1 ((start ex_env (new_SyncManager [home_session, disabled_session] 0))\<lparr>clock := 10000\<rparr>))) =
     [EnterSyncSession ''s1'', EnterSyncSession ''s2'']"
proof -
  have f: "\<forall>e. logCallbackFactory home_env \<noteq> Some (Rejects e)" by (simp add: home_env_def ex_env_def)
  have g: "getCurrentSSID home_env = Some ''home''" by (simp add: home_env_def)
  have a: "\<not> enabled disabled_session \<and> id_s disabled_session = ''s2''"
    by (simp add: disabled_session_def)
  have b: "filter is_Enter
        (snd (fire home_env 1 ((start ex_env (new_SyncManager [home_session, disabled_session] 0))\<lparr>clock := 10000\<rparr>))) =
     [EnterSyncSession ''s1'', EnterSyncSession ''s2'']"
    unfolding start_home
    by (simp add: fire_def run_callback_gate [OF f] session_paused_def checkNetwork_def
          home_session_def disabled_session_def ex_session_def g del: run_callback.simps)
  from a b show ?thesis by blast
qed

subsection \<open>The network polling loop\<close>

text \<open>
  An invariant of the reachable states: timer handles are fresh and distinct, no value of
  the timer table is the handle of the network watcher, and the network watcher is the
  handle of the only repeating timer that runs \<^verbatim>\<open>checkNetwork\<close>.
\<close>

lemma engine_inv_cong:
  assumes "liveTimers m' = liveTimers m" and "nextHandle m' = nextHandle m"
      and "timers m' = timers m" and "networkWatcher m' = networkWatcher m"
  shows "engine_inv m' = engine_inv m"
  using assms by (simp add: engine_inv_def net_loops_def)

lemma inv_new: "engine_inv (new_SyncManager ss t)"
  by (simp add: engine_inv_def new_SyncManager_def net_loops_def)

lemma inv_add_timer:
  assumes "engine_inv m" and "\<not> is_net_loop t" and "t_handle t = nextHandle m"
  shows "engine_inv (m\<lparr>liveTimers := liveTimers m @ [t], nextHandle := Suc (nextHandle m)\<rparr>)"
proof -
  have fresh: "nextHandle m \<notin> t_handle ` set (liveTimers m)"
    using assms(1) by (auto simp: engine_inv_def)
  show ?thesis
    using assms fresh
    by (auto simp: engine_inv_def net_loops_def less_Suc_eq split: option.splits)
qed

lemma inv_bump_handle:
  assumes "engine_inv m"
  shows "engine_inv (m\<lparr>nextHandle := Suc (nextHandle m)\<rparr>)"
  using assms by (auto simp: engine_inv_def net_loops_def less_Suc_eq split: option.splits)

lemma values_update: "x \<in> set (AList.update k v al) \<Longrightarrow> x = (k, v) \<or> x \<in> set al"
  by (induction al) (auto split: if_splits)

lemma inv_set_key:
  assumes "engine_inv m" and "h < nextHandle m" and "networkWatcher m \<noteq> Some h"
  shows "engine_inv (m\<lparr>timers := AList.update k h (timers m)\<rparr>)"
proof -
  have "\<forall>x \<in> set (AList.update k h (timers m)). snd x < nextHandle m \<and> networkWatcher m \<noteq> Some (snd x)"
  proof
    fix x
    assume "x \<in> set (AList.update k h (timers m))"
    then have "x = (k, h) \<or> x \<in> set (timers m)" by (rule values_update)
    then show "snd x < nextHandle m \<and> networkWatcher m \<noteq> Some (snd x)"
      using assms by (auto simp: engine_inv_def)
  qed
  with assms(1) show ?thesis
    by (simp add: engine_inv_def net_loops_def)
qed

lemma inv_filter_keys:
  assumes "engine_inv m"
  shows "engine_inv (m\<lparr>timers := filter k (timers m)\<rparr>)"
  using assms by (auto simp: engine_inv_def net_loops_def)

lemma inv_watcher_below:
  assumes "engine_inv m"
  shows "networkWatcher m \<noteq> Some (nextHandle m)"
  using assms by (auto simp: engine_inv_def split: option.splits)

lemma inv_clear:
  assumes "engine_inv m" and "networkWatcher m \<noteq> Some h"
  shows "engine_inv (clearTimer h m)"
proof -
  have d: "distinct (map t_handle (filter (\<lambda>t. t_handle t \<noteq> h) (liveTimers m)))"
    using assms(1) by (simp add: engine_inv_def distinct_map_filter)
  have n: "filter is_net_loop (filter (\<lambda>t. t_handle t \<noteq> h) (liveTimers m)) = net_loops m"
  proof (cases "networkWatcher m")
    case None
    with assms(1) have "net_loops m = []" by (simp add: engine_inv_def)
    then show ?thesis by (auto simp: net_loops_def filter_empty_conv)
  next
    case (Some w)
    with assms(1) obtain t where t: "net_loops m = [t]" "t_handle t = w"
      by (auto simp: engine_inv_def)
    have "filter is_net_loop (filter (\<lambda>t. t_handle t \<noteq> h) (liveTimers m)) =
          filter (\<lambda>t. t_handle t \<noteq> h) (net_loops m)"
      by (simp add: net_loops_def conj_commute)
    also have "\<dots> = net_loops m" using t Some assms(2) by auto
    finally show ?thesis .
  qed
  show ?thesis
    using assms(1) d n
    by (auto simp: engine_inv_def clearTimer_def net_loops_def split: option.splits)
qed

lemma inv_setTimeout:
  "engine_inv m \<Longrightarrow> engine_inv (setTimeout cb after m)"
  unfolding setTimeout_def by (rule inv_add_timer) (simp_all add: is_net_loop_def)

lemma inv_spawn:
  "engine_inv m \<Longrightarrow> engine_inv (spawn cb m)"
  unfolding spawn_def by (rule inv_add_timer) (simp_all add: is_net_loop_def)

lemma inv_setInterval:
  "engine_inv m \<Longrightarrow> cb \<noteq> CheckNetwork \<Longrightarrow> engine_inv (setInterval cb after m)"
  unfolding setInterval_def by (rule inv_add_timer) (simp_all add: is_net_loop_def)

lemma inv_timed_key:
  assumes "engine_inv m" and "engine_inv m'" and "nextHandle m < nextHandle m'"
      and "networkWatcher m' = networkWatcher m"
  shows "engine_inv (m'\<lparr>timers := AList.update k (nextHandle m) (timers m')\<rparr>)"
  using inv_set_key [OF assms(2,3)] inv_watcher_below [OF assms(1)] assms(4) by simp

lemma inv_setupScheduleTrigger:
  assumes "engine_inv m"
  shows "engine_inv (setupScheduleTrigger s tr m)"
proof (cases "time tr = []")
  case True
  with assms show ?thesis by (simp add: setupScheduleTrigger_def)
next
  case False
  let ?m' = "setInterval (CheckSchedule (id_s s) (name s) tr) 60000 m"
  have "engine_inv ?m'" using assms by (simp add: inv_setInterval)
  moreover have "nextHandle m < nextHandle ?m'" "networkWatcher ?m' = networkWatcher m"
    by (simp_all add: setInterval_def)
  ultimately have "engine_inv (?m'\<lparr>timers := AList.update (id_s s @ ''-schedule'') (nextHandle m) (timers ?m')\<rparr>)"
    using inv_timed_key [OF assms] by blast
  with False show ?thesis by (simp add: setupScheduleTrigger_def Let_def)
qed

lemma inv_setupIntervalTrigger:
  assumes "engine_inv m"
  shows "engine_inv (setupIntervalTrigger s tr m)"
proof -
  let ?m' = "setInterval (ExecuteSync (id_s s) (name s) tr) (intervalMinutes tr * 60 * 1000) m"
  have "engine_inv ?m'" using assms by (simp add: inv_setInterval)
  moreover have "nextHandle m < nextHandle ?m'" "networkWatcher ?m' = networkWatcher m"
    by (simp_all add: setInterval_def)
  ultimately have "engine_inv (?m'\<lparr>timers := AList.update (id_s s @ ''-interval'') (nextHandle m) (timers ?m')\<rparr>)"
    using inv_timed_key [OF assms] by blast
  then show ?thesis by (simp add: setupIntervalTrigger_def Let_def)
qed

lemma inv_setupStartupTrigger:
  "engine_inv m \<Longrightarrow> engine_inv (setupStartupTrigger s tr m)"
  by (simp add: setupStartupTrigger_def inv_setTimeout)

lemma inv_startNetworkMonitoring:
  assumes "engine_inv m" and "networkWatcher m = None"
  shows "engine_inv (startNetworkMonitoring m)"
proof -
  let ?m1 = "spawn CheckNetwork m"
  have i1: "engine_inv ?m1" using assms(1) by (rule inv_spawn)
  have n1: "networkWatcher ?m1 = None" using assms(2) by (simp add: spawn_def)
  have fresh: "nextHandle ?m1 \<notin> t_handle ` set (liveTimers ?m1)"
    using i1 by (auto simp: engine_inv_def)
  have nl: "net_loops ?m1 = []" using i1 n1 by (simp add: engine_inv_def)
  show ?thesis
    using i1 n1 fresh nl
    by (auto simp: startNetworkMonitoring_def Let_def setInterval_def engine_inv_def net_loops_def
          is_net_loop_def timer_delay_def less_Suc_eq)
qed

lemma inv_setupWiFiTrigger:
  "engine_inv m \<Longrightarrow> engine_inv (setupWiFiTrigger m)"
  by (simp add: setupWiFiTrigger_def inv_startNetworkMonitoring)

lemma inv_fold_watch_path:
  "engine_inv m \<Longrightarrow> engine_inv (fst (fold (watch_path env s tr) ps (m, ws)))"
proof (induction ps arbitrary: m ws)
  case Nil
  then show ?case by simp
next
  case (Cons p ps)
  show ?case
  proof (cases "fs_watch env p")
    case True
    let ?m' = "m\<lparr>liveWatchers := liveWatchers m @
                [\<lparr>w_handle = nextHandle m, w_sid = id_s s, w_name = name s,
                  w_path = p, w_trigger = tr\<rparr>], nextHandle := Suc (nextHandle m)\<rparr>"
    have "engine_inv (m\<lparr>nextHandle := Suc (nextHandle m)\<rparr>)"
      using Cons.prems by (rule inv_bump_handle)
    moreover have "engine_inv ?m' = engine_inv (m\<lparr>nextHandle := Suc (nextHandle m)\<rparr>)"
      by (rule engine_inv_cong) simp_all
    ultimately have "engine_inv ?m'" by simp
    from Cons.IH [OF this, of "ws @ [nextHandle m]"] True show ?thesis
      by (simp add: watch_path_def)
  next
    case False
    with Cons.IH [OF Cons.prems, of ws] show ?thesis by (simp add: watch_path_def)
  qed
qed

lemma inv_setupFileChangeTrigger:
  assumes "engine_inv m"
  shows "engine_inv (setupFileChangeTrigger env s tr m)"
proof -
  let ?m' = "fst (fold (watch_path env s tr) (watchPaths tr) (m, []))"
  have i: "engine_inv ?m'" using assms by (rule inv_fold_watch_path)
  have "engine_inv (setupFileChangeTrigger env s tr m) = engine_inv ?m'"
    by (rule engine_inv_cong) (simp_all add: setupFileChangeTrigger_def case_prod_beta Let_def)
  with i show ?thesis by simp
qed

lemma inv_setupTrigger:
  "engine_inv m \<Longrightarrow> engine_inv (setupTrigger env s tr m)"
  by (cases tr)
    (simp_all add: inv_setupScheduleTrigger inv_setupWiFiTrigger inv_setupFileChangeTrigger
       inv_setupStartupTrigger inv_setupIntervalTrigger)

lemma inv_setupTriggers:
  "engine_inv m \<Longrightarrow> engine_inv (setupTriggers env s m)"
  unfolding setupTriggers_def
  by (induction "triggers s" arbitrary: m) (simp_all add: inv_setupTrigger fold_invariant)

lemma inv_fold_sessions:
  "engine_inv m \<Longrightarrow>
   engine_inv (fold (\<lambda>session m'. if enabled session then setupTriggers env session m' else m') ss m)"
  by (induction ss arbitrary: m) (simp_all add: inv_setupTriggers)

lemma inv_start: "engine_inv m \<Longrightarrow> engine_inv (start env m)"
  by (simp add: start_def inv_setTimeout inv_fold_sessions)

lemma inv_stop:
  assumes "engine_inv m"
  shows "engine_inv (stop m)"
proof -
  let ?keep = "\<lambda>t. t_handle t \<notin> snd ` set (timers m) \<and> networkWatcher m \<noteq> Some (t_handle t)"
  have l: "liveTimers (stop m) = filter ?keep (liveTimers m)" by (rule stop_liveTimers)
  have f: "timers (stop m) = []" "networkWatcher (stop m) = None" "nextHandle (stop m) = nextHandle m"
    by (simp_all add: stop_fields)
  have d: "distinct (map t_handle (filter ?keep (liveTimers m)))"
    using assms by (simp add: engine_inv_def distinct_map_filter)
  have n: "filter is_net_loop (filter ?keep (liveTimers m)) = []"
  proof (cases "networkWatcher m")
    case None
    with assms have "net_loops m = []" by (simp add: engine_inv_def)
    then show ?thesis by (auto simp: net_loops_def filter_empty_conv)
  next
    case (Some w)
    with assms obtain t where t: "net_loops m = [t]" "t_handle t = w"
      by (auto simp: engine_inv_def)
    have "filter is_net_loop (filter ?keep (liveTimers m)) = filter ?keep (net_loops m)"
      by (simp add: net_loops_def conj_commute)
    also have "\<dots> = []" using t Some by simp
    finally show ?thesis .
  qed
  show ?thesis
    using assms d n by (auto simp: engine_inv_def l f net_loops_def)
qed

lemma inv_sessions: "engine_inv (m\<lparr>sessions := ss\<rparr>) = engine_inv m"
  by (rule engine_inv_cong) simp_all

lemma inv_updateSessions: "engine_inv m \<Longrightarrow> engine_inv (updateSessions env ss m)"
  by (simp add: updateSessions_def inv_start inv_stop inv_sessions)

lemma inv_run_callback:
  assumes "engine_inv m"
  shows "engine_inv (fst (run_callback env cb m))"
proof -
  obtain ss c l k where f: "fst (run_callback env cb m) =
     m\<lparr>sessions := ss, currentSSID := c, startupTriggersExecuted := l, timers := filter k (timers m)\<rparr>"
    using run_callback_frame [of env cb m] by blast
  have "engine_inv (m\<lparr>sessions := ss, currentSSID := c, startupTriggersExecuted := l,
          timers := filter k (timers m)\<rparr>) = engine_inv (m\<lparr>timers := filter k (timers m)\<rparr>)"
    by (rule engine_inv_cong) simp_all
  with inv_filter_keys [OF assms, of k] f show ?thesis by simp
qed

lemma find_handle_unique:
  assumes "distinct (map t_handle ts)" and "t \<in> set ts"
  shows "find (\<lambda>x. t_handle x = t_handle t) ts = Some t"
  using assms by (induction ts) (auto simp: image_iff)

lemma inv_reschedule:
  assumes "engine_inv m"
  shows "engine_inv (m\<lparr>liveTimers := map (\<lambda>x. if t_handle x = h then x\<lparr>t_due := d\<rparr> else x) (liveTimers m)\<rparr>)"
proof -
  let ?f = "\<lambda>x. if t_handle x = h then x\<lparr>t_due := d\<rparr> else x"
  have hs: "map t_handle (map ?f (liveTimers m)) = map t_handle (liveTimers m)"
    by (induction "liveTimers m") (auto simp: comp_def intro: map_cong)
  have hs': "map (t_handle \<circ> ?f) (liveTimers m) = map t_handle (liveTimers m)"
    using hs by simp
  have nl0: "filter is_net_loop (map ?f ts) = map ?f (filter is_net_loop ts)" for ts
    by (induction ts) (simp_all add: is_net_loop_def)
  have nl: "filter is_net_loop (map ?f (liveTimers m)) = map ?f (net_loops m)"
    by (simp add: nl0 net_loops_def)
  show ?thesis
    using assms
    by (auto simp: engine_inv_def hs' nl net_loops_def)
qed

lemma inv_fire:
  assumes "engine_inv m" and "t \<in> set (liveTimers m)"
  shows "engine_inv (fst (fire env (t_handle t) m))"
proof -
  have d: "distinct (map t_handle (liveTimers m))" using assms(1) by (simp add: engine_inv_def)
  have fnd: "find (\<lambda>x. t_handle x = t_handle t) (liveTimers m) = Some t"
    using find_handle_unique [OF d assms(2)] .
  show ?thesis
  proof (cases "t_repeat t")
    case None
    have "networkWatcher m \<noteq> Some (t_handle t)"
    proof
      assume w: "networkWatcher m = Some (t_handle t)"
      with assms(1) obtain t0 where t0: "net_loops m = [t0]" "t_handle t0 = t_handle t"
        by (auto simp: engine_inv_def)
      then have "t0 \<in> set (liveTimers m)" "is_net_loop t0"
        using filter_eq_ConsD [of is_net_loop "liveTimers m" t0 "[]"]
        by (auto simp: net_loops_def)
      with d assms(2) t0(2) have "t0 = t"
        by (meson distinct_map inj_onD)
      with \<open>is_net_loop t0\<close> None show False by (simp add: is_net_loop_def)
    qed
    then have "engine_inv (clearTimer (t_handle t) m)" using assms(1) by (simp add: inv_clear)
    then have "engine_inv (fst (run_callback env (t_cb t) (clearTimer (t_handle t) m)))"
      by (rule inv_run_callback)
    with fnd None show ?thesis by (simp add: fire_def)
  next
    case (Some p)
    have "engine_inv (m\<lparr>liveTimers := map (\<lambda>x. if t_handle x = t_handle t then x\<lparr>t_due := clock m + p\<rparr> else x) (liveTimers m)\<rparr>)"
      using assms(1) by (rule inv_reschedule)
    then have "engine_inv (fst (run_callback env (t_cb t)
       (m\<lparr>liveTimers := map (\<lambda>x. if t_handle x = t_handle t then x\<lparr>t_due := clock m + p\<rparr> else x) (liveTimers m)\<rparr>)))"
      by (rule inv_run_callback)
    with fnd Some show ?thesis by (simp add: fire_def)
  qed
qed

lemma inv_fs_event:
  assumes "engine_inv m"
  shows "engine_inv (fs_event env h filename m)"
proof (cases "find (\<lambda>w. w_handle w = h) (liveWatchers m)")
  case None
  with assms show ?thesis by (simp add: fs_event_def)
next
  case (Some w)
  let ?key = "w_sid w @ ''-filechange-'' @ w_path w"
  let ?m1 = "case map_of (timers m) ?key of None \<Rightarrow> m | Some existingTimer \<Rightarrow> clearTimer existingTimer m"
  let ?m2 = "setTimeout (DebounceFire (w_sid w) (w_name w) ?key filename) (debounceMs (w_trigger w)) ?m1"
  have i1: "engine_inv ?m1"
  proof (cases "map_of (timers m) ?key")
    case None
    with assms show ?thesis by simp
  next
    case (Some e)
    then have "(?key, e) \<in> set (timers m)" by (rule map_of_SomeD)
    with assms have "networkWatcher m \<noteq> Some e" by (auto simp: engine_inv_def)
    with assms Some show ?thesis by (simp add: inv_clear)
  qed
  have i2: "engine_inv ?m2" using i1 by (rule inv_setTimeout)
  have "nextHandle ?m1 < nextHandle ?m2" "networkWatcher ?m2 = networkWatcher ?m1"
    by (simp_all add: setTimeout_def)
  with inv_timed_key [OF i1 i2] have "engine_inv (?m2\<lparr>timers := AList.update ?key (nextHandle ?m1) (timers ?m2)\<rparr>)"
    by blast
  with Some assms show ?thesis by (simp add: fs_event_def Let_def)
qed

lemma inv_step:
  assumes "step m m'" and "engine_inv m"
  shows "engine_inv m'"
  using assms
proof (cases rule: step.cases)
  case (s_start env)
  with assms(2) show ?thesis by (simp add: inv_start)
next
  case s_stop
  with assms(2) show ?thesis by (simp add: inv_stop)
next
  case (s_update env ss)
  with assms(2) show ?thesis by (simp add: inv_updateSessions)
next
  case (s_tick dt)
  have "engine_inv (m\<lparr>clock := clock m + dt\<rparr>) = engine_inv m" by (rule engine_inv_cong) simp_all
  with s_tick assms(2) show ?thesis by simp
next
  case (s_fire t env)
  with assms(2) show ?thesis by (simp add: inv_fire)
next
  case (s_fs_event env h filename)
  with assms(2) show ?thesis by (simp add: inv_fs_event)
next
  case (s_sync_now env sessionId)
  have "engine_inv (fst (sync_now env sessionId m)) = engine_inv m"
    by (subst sync_now_frame) (rule inv_sessions)
  with s_sync_now assms(2) show ?thesis by simp
next
  case s_pauseAll
  have "engine_inv (pauseAllSessions m) = engine_inv m"
    by (rule engine_inv_cong) (simp_all add: pauseAllSessions_def)
  with s_pauseAll assms(2) show ?thesis by simp
next
  case s_resumeAll
  have "engine_inv (resumeAllSessions m) = engine_inv m"
    by (rule engine_inv_cong) (simp_all add: resumeAllSessions_def)
  with s_resumeAll assms(2) show ?thesis by simp
next
  case (s_pause sessionId)
  have "engine_inv (pauseSession sessionId m) = engine_inv m"
    by (rule engine_inv_cong) (simp_all add: pauseSession_def)
  with s_pause assms(2) show ?thesis by simp
next
  case (s_resume sessionId)
  have "engine_inv (resumeSession sessionId m) = engine_inv m"
    by (rule engine_inv_cong) (simp_all add: resumeSession_def)
  with s_resume assms(2) show ?thesis by simp
qed

lemma inv_steps:
  assumes "step\<^sup>*\<^sup>* m m'" and "engine_inv m"
  shows "engine_inv m'"
  using assms by (induction rule: rtranclp_induct) (auto intro: inv_step)

lemma reachable_inv: "reachable m \<Longrightarrow> engine_inv m"
  unfolding reachable_def using inv_steps inv_new by blast

lemma at_most_one_loop:
  assumes "engine_inv m"
  shows "length (net_loops m) \<le> 1 \<and> (net_loops m = [] \<longleftrightarrow> networkWatcher m = None) \<and>
         (\<forall>t \<in> set (net_loops m). t_repeat t = Some 10000)"
proof (cases "networkWatcher m")
  case None
  with assms show ?thesis by (simp add: engine_inv_def)
next
  case (Some h)
  with assms obtain t where "net_loops m = [t]" "t_repeat t = Some 10000"
    by (auto simp: engine_inv_def)
  with Some show ?thesis by simp
qed

lemma setupTrigger_watcher:
  "(networkWatcher (setupTrigger env s tr m) \<noteq> None) = (networkWatcher m \<noteq> None \<or> is_WiFi tr)"
proof (cases tr)
  case (WiFi w)
  then show ?thesis
    by (simp add: setupWiFiTrigger_def startNetworkMonitoring_def Let_def)
next
  case (Schedule t)
  then show ?thesis by (simp add: setupScheduleTrigger_def Let_def setInterval_def)
next
  case (FileChange f)
  then show ?thesis
    using fold_watch_path_fields [of env s f "watchPaths f" m "[]"]
    by (simp add: setupFileChangeTrigger_def case_prod_beta Let_def)
next
  case (Startup st)
  then show ?thesis by (simp add: setupStartupTrigger_def setTimeout_def)
next
  case (Interval i)
  then show ?thesis by (simp add: setupIntervalTrigger_def Let_def setInterval_def)
qed

lemma setupTriggers_watcher:
  "(networkWatcher (fold (setupTrigger env s) trs m) \<noteq> None) =
     (networkWatcher m \<noteq> None \<or> (\<exists>tr \<in> set trs. is_WiFi tr))"
proof (induction trs arbitrary: m)
  case Nil
  show ?case by simp
next
  case (Cons tr trs)
  show ?case
    using Cons.IH [of "setupTrigger env s tr m"] setupTrigger_watcher [of env s tr m]
    by auto
qed

lemma fold_sessions_watcher:
  "(networkWatcher (fold (\<lambda>session m'. if enabled session then setupTriggers env session m' else m') ss m) \<noteq> None) =
     (networkWatcher m \<noteq> None \<or> (\<exists>s \<in> set ss. enabled s \<and> (\<exists>tr \<in> set (triggers s). is_WiFi tr)))"
proof (induction ss arbitrary: m)
  case Nil
  show ?case by simp
next
  case (Cons s ss)
  show ?case
  proof (cases "enabled s")
    case True
    then show ?thesis
      using Cons.IH [of "setupTriggers env s m"] setupTriggers_watcher [of env s "triggers s" m]
      by (auto simp: setupTriggers_def)
  next
    case False
    then show ?thesis using Cons.IH [of m] by auto
  qed
qed

lemma start_watcher:
  "(networkWatcher (start env m) \<noteq> None) =
     (networkWatcher m \<noteq> None \<or> (\<exists>s \<in> set (sessions m). enabled s \<and> (\<exists>tr \<in> set (triggers s). is_WiFi tr)))"
  using fold_sessions_watcher [of env "sessions m" m]
  by (simp add: start_def setTimeout_def)

lemma wifi_fires_iff:
  "map snd (wifi_fires prev cur s (WiFi w)) =
     (if (onConnect w \<and> cur = Some (ssid w)) \<or>
         (\<not> onConnect w \<and> prev = Some (ssid w) \<and> cur \<noteq> Some (ssid w))
      then [id_s s] else [])"
  by simp

lemma wifi_fires_other: "\<not> is_WiFi tr \<Longrightarrow> wifi_fires prev cur s tr = []"
  by (cases tr) simp_all

lemma checkNetwork_requests:
  "cur \<noteq> currentSSID m \<Longrightarrow>
   map snd (snd (checkNetwork cur m)) =
     concat (map (\<lambda>s. concat (map (\<lambda>tr. map snd (wifi_fires (currentSSID m) cur s tr)) (triggers s)))
               (sessions m))"
  by (simp add: checkNetwork_def map_concat comp_def)

text \<open>
  Claim C8. In every reachable state at most one repeating timer runs \<^verbatim>\<open>checkNetwork\<close>;
  there is one exactly when \<^verbatim>\<open>networkWatcher\<close> is set, and its period is 10000 ms. \<^verbatim>\<open>start\<close>
  sets \<^verbatim>\<open>networkWatcher\<close> exactly when it was set before or an enabled session has a WiFi
  trigger. When the sampled identity equals the last one, \<^verbatim>\<open>checkNetwork\<close> does nothing;
  when it differs, the last identity is updated and every WiFi trigger of every session
  requests a sync of its session if and only if it is an on-connect trigger and the new
  identity is its \<^verbatim>\<open>ssid\<close>, or it is an on-disconnect trigger, the previous identity was its
  \<^verbatim>\<open>ssid\<close> and the new one is not. Triggers of other kinds request nothing there.
\<close>

theorem C8_network_polling:
  "(reachable m \<longrightarrow>
      length (net_loops m) \<le> 1 \<and> (net_loops m = [] \<longleftrightarrow> networkWatcher m = None) \<and>
      (\<forall>t \<in> set (net_loops m). t_repeat t = Some 10000))
   \<and> ((networkWatcher (start env m) \<noteq> None) =
        (networkWatcher m \<noteq> None \<or>
         (\<exists>s \<in> set (sessions m). enabled s \<and> (\<exists>tr \<in> set (triggers s). is_WiFi tr))))
   \<and> map snd (wifi_fires prev cur s (WiFi w)) =
        (if (onConnect w \<and> cur = Some (ssid w)) \<or>
            (\<not> onConnect w \<and> prev = Some (ssid w) \<and> cur \<noteq> Some (ssid w))
         then [id_s s] else [])
   \<and> (\<forall>tr. \<not> is_WiFi tr \<longrightarrow> wifi_fires prev cur s tr = [])
   \<and> (cur = currentSSID m \<longrightarrow> checkNetwork cur m = (m, []))
   \<and> (cur \<noteq> currentSSID m \<longrightarrow>
        fst (checkNetwork cur m) = m\<lparr>currentSSID := cur\<rparr> \<and>
        map snd (snd (checkNetwork cur m)) =
          concat (map (\<lambda>s. concat (map (\<lambda>tr. map snd (wifi_fires (currentSSID m) cur s tr)) (triggers s)))
                    (sessions m)))"
proof -
  have a: "reachable m \<longrightarrow>
      length (net_loops m) \<le> 1 \<and> (net_loops m = [] \<longleftrightarrow> networkWatcher m = None) \<and>
      (\<forall>t \<in> set (net_loops m). t_repeat t = Some 10000)"
    using at_most_one_loop [OF reachable_inv] by blast
  have d: "\<forall>tr. \<not> is_WiFi tr \<longrightarrow> wifi_fires prev cur s tr = []"
    using wifi_fires_other by blast
  have e: "cur = currentSSID m \<longrightarrow> checkNetwork cur m = (m, [])"
    by (simp add: checkNetwork_def)
  have f: "cur \<noteq> currentSSID m \<longrightarrow>
        fst (checkNetwork cur m) = m\<lparr>currentSSID := cur\<rparr> \<and>
        map snd (snd (checkNetwork cur m)) =
          concat (map (\<lambda>s. concat (map (\<lambda>tr. map snd (wifi_fires (currentSSID m) cur s tr)) (triggers s)))
                    (sessions m))"
    using checkNetwork_requests [of cur m] by (simp add: checkNetwork_def)
  note b = start_watcher [of env m]
  note c = wifi_fires_iff [of prev cur s w]
  show ?thesis by (intro conjI a b c d e f)
qed

text \<open>
  Witness for claim C8, two sessions with a WiFi trigger each: one polling loop with period
  10000 ms after the start; joining \<^verbatim>\<open>home\<close> fires the on-connect trigger, leaving it fires
  the on-disconnect trigger and not the on-connect one.
\<close>

theorem C8_witness:
  "map t_repeat (net_loops (start ex_env (new_SyncManager [home_session, disabled_session] 0))) = [Some 10000]
   \<and> networkWatcher (start ex_env (new_SyncManager [home_session, disabled_session] 0)) = Some 1
   \<and> map snd (wifi_fires None (Some ''home'') home_session (WiFi \<lparr>ssid = ''home'', onConnect = True\<rparr>)) = [''s1'']
   \<and> map snd (wifi_fires (Some ''home'') None home_session (WiFi \<lparr>ssid = ''home'', onConnect = False\<rparr>)) = [''s1'']
   \<and> map snd (wifi_fires (Some ''home'') None home_session (WiFi \<lparr>ssid = ''home'', onConnect = True\<rparr>)) = []"
proof -
  let ?m = "start ex_env (new_SyncManager [home_session, disabled_session] 0)"
  have "step (new_SyncManager [home_session, disabled_session] 0) ?m" by (rule step.s_start)
  then have r: "reachable ?m" unfolding reachable_def by blast
  have w: "networkWatcher ?m = Some 1" unfolding start_home by simp
  note k = C8_network_polling [THEN conjunct1, THEN mp, OF r]
  have l: "length (net_loops ?m) \<le> 1" "(net_loops ?m = []) = (networkWatcher ?m = None)"
          "\<forall>t \<in> set (net_loops ?m). t_repeat t = Some 10000"
    using k by simp_all
  from l(2) w have ne: "net_loops ?m \<noteq> []" by simp
  then obtain t ts where c: "net_loops ?m = t # ts" by (cases "net_loops ?m") auto
  with l(1) have "ts = []" by simp
  with c l(3) have a: "map t_repeat (net_loops ?m) = [Some 10000]" by simp
  have i: "id_s home_session = ''s1''" by (simp add: home_session_def ex_session_def)
  have f: "map snd (wifi_fires prev cur home_session (WiFi x)) =
        (if (onConnect x \<and> cur = Some (ssid x)) \<or>
            (\<not> onConnect x \<and> prev = Some (ssid x) \<and> cur \<noteq> Some (ssid x))
         then [id_s home_session] else [])" for prev cur x
    by (rule C8_network_polling [THEN conjunct2, THEN conjunct2, THEN conjunct1])
  show ?thesis using a w by (simp add: f i del: wifi_fires.simps)
qed

end
